theory Spec2Isabelle
  imports Main
begin

section \<open>The blocking I/O coordinator of org\_conscrypt\_NativeCrypto.cpp\<close>

text \<open>
  The functions \<open>sslNotify\<close>, \<open>sslSelect\<close>, \<open>sslRead\<close>, \<open>sslWrite\<close> and the JNI entry
  points \<open>NativeCrypto_SSL_read\<close>, \<open>NativeCrypto_SSL_write\<close>, \<open>NativeCrypto_SSL_interrupt\<close>
  are embedded as state transformers. The TLS engine, the kernel and the other threads are
  not part of the program: what they answer is given to each function as a script, one
  entry per call, consumed in order. A function whose script runs out before the code
  would return yields \<open>None\<close>: in the model, the call does not return.

  The mutex of \<open>AppData\<close> is not modelled: one thread is followed, and what other threads
  do reaches it only through the script.
\<close>

subsection \<open>Constants\<close>

definition THROW_SSLEXCEPTION :: int where
  "THROW_SSLEXCEPTION = - 2"

definition THROW_SOCKETTIMEOUTEXCEPTION :: int where
  "THROW_SOCKETTIMEOUTEXCEPTION = - 3"

definition THROWN_EXCEPTION :: int where
  "THROWN_EXCEPTION = - 4"

text \<open>
  The values of \<open>EINTR\<close> and \<open>EAGAIN\<close> come from the platform's errno.h, which is not part of
  the repository; the Linux values are used. No proof below depends on them beyond
  \<open>EINTR \<noteq> 0\<close> and \<open>EAGAIN \<noteq> EINTR\<close>.
\<close>

definition EINTR :: int where
  "EINTR = 4"

definition EAGAIN :: int where
  "EAGAIN = 11"

text \<open>
  The error codes of the engine's \<open>SSL_get_error\<close>, as the switch statements of the source
  name them; \<open>SSL_ERROR_OTHER\<close> stands for any further code, which the switches send to
  \<open>default\<close>. The numeric values are in the engine's headers and are never used.
\<close>

datatype ssl_error =
    SSL_ERROR_NONE
  | SSL_ERROR_SSL
  | SSL_ERROR_WANT_READ
  | SSL_ERROR_WANT_WRITE
  | SSL_ERROR_WANT_X509_LOOKUP
  | SSL_ERROR_SYSCALL
  | SSL_ERROR_ZERO_RETURN
  | SSL_ERROR_WANT_CONNECT
  | SSL_ERROR_WANT_ACCEPT
  | SSL_ERROR_OTHER int

text \<open>
  The Java exceptions the code can leave pending in the JNI environment.
  \<open>SocketException\<close> is the one thrown by \<open>NetFd::isClosed\<close>, \<open>CallbackException\<close> one thrown
  by a Java callback during an engine call, \<open>ArrayException\<close> one thrown while pinning the
  byte array.
\<close>

datatype jthrowable =
    NullPointerException string
  | SSLException string
  | SSLProtocolException string
  | SocketTimeoutException string
  | SocketException
  | CallbackException
  | ArrayException

subsection \<open>State\<close>

text \<open>
  \<open>class AppData\<close>: the fields the coordinator reads and writes. \<open>fdsEmergency\<close> names the two
  ends of the self-pipe; the bytes buffered in that pipe are kernel state and are the field
  \<open>pipe\<close> of \<open>proc\<close>. The counters are C \<open>int\<close>s; they are modelled as unbounded integers,
  since \<open>waitingThreads\<close> stays within the number of threads inside the native code.
\<close>

record AppData =
  aliveAndKicking :: int
  waitingThreads :: int
  env :: "nat option"
  sslHandshakeCallbacks :: "nat option"

text \<open>What the calling thread observes and leaves behind outside \<open>AppData\<close>.\<close>

datatype poll_events = POLLIN_POLLPRI | POLLOUT_POLLPRI

datatype call =
    Call_SSL_read int int
  | Call_SSL_write int int
  | Call_poll poll_events int
  | Call_write
  | Call_read

record proc =
  errno :: int
  pipe :: nat
  pending :: "jthrowable option"
  calls :: "call list"

subsection \<open>sslNotify\<close>

text \<open>
  One \<open>write(appData->fdsEmergency[1], &token, 1)\<close>. The script entry says how the system
  call returns: one byte written, or failure with an errno value.
\<close>

datatype write_outcome = Written | WriteFailed int

definition pipe_write :: "write_outcome \<Rightarrow> proc \<Rightarrow> proc" where
  "pipe_write out p =
     (case out of
        Written \<Rightarrow> p\<lparr>pipe := pipe p + 1, calls := calls p @ [Call_write]\<rparr>
      | WriteFailed e \<Rightarrow> p\<lparr>errno := e, calls := calls p @ [Call_write]\<rparr>)"

text \<open>\<open>do { errno = 0; (void) write(...); } while (errno == EINTR);\<close>\<close>

fun sslNotify_loop :: "write_outcome list \<Rightarrow> proc \<Rightarrow> proc option" where
  "sslNotify_loop [] p = None"
| "sslNotify_loop (out # outs) p =
     (let p1 = pipe_write out (p\<lparr>errno := 0\<rparr>)
      in if errno p1 = EINTR then sslNotify_loop outs p1 else Some p1)"

definition sslNotify :: "write_outcome list \<Rightarrow> proc \<Rightarrow> proc option" where
  "sslNotify outs p =
     (let errnoBackup = errno p
      in case sslNotify_loop outs p of
           None \<Rightarrow> None
         | Some p1 \<Rightarrow> Some (p1\<lparr>errno := errnoBackup\<rparr>))"

subsection \<open>sslSelect\<close>

text \<open>
  The effect on this thread's view of a \<open>NativeCrypto_SSL_interrupt\<close> completed by another
  thread: the flag is cleared and two bytes are in the self-pipe. (errno is per thread.)
\<close>

definition interrupted_by_other_thread :: "AppData \<Rightarrow> proc \<Rightarrow> AppData \<times> proc" where
  "interrupted_by_other_thread appData p =
     (appData\<lparr>aliveAndKicking := 0\<rparr>, p\<lparr>pipe := pipe p + 2\<rparr>)"

text \<open>
  One round of the polling loop, as the environment answers it: whether
  \<open>fd.isClosed()\<close> holds at the top of the round, whether another thread completes
  \<open>NativeCrypto_SSL_interrupt\<close> while this one is in \<open>poll\<close>, how many further wake-up bytes
  other threads put into the self-pipe meanwhile, what \<open>poll\<close> returns, the errno it sets
  when it returns -1, whether \<open>fd.isClosed()\<close> holds after a failed poll, and whether
  \<open>fds[1].revents\<close> has \<open>POLLIN\<close>.
\<close>

record poll_outcome =
  closed_before :: bool
  interrupt_during :: bool
  arrived :: nat
  poll_result :: int
  poll_errno :: int
  closed_after :: bool
  revents_POLLIN :: bool

definition poll ::
  "poll_events \<Rightarrow> int \<Rightarrow> poll_outcome \<Rightarrow> AppData \<Rightarrow> proc \<Rightarrow> AppData \<times> proc" where
  "poll events timeout_millis po appData0 p0 =
     (let (appData, p) = (if interrupt_during po
                          then interrupted_by_other_thread appData0 p0 else (appData0, p0))
      in (appData,
          p\<lparr>errno := (if poll_result po = - 1 then poll_errno po else errno p),
            pipe := pipe p + arrived po,
            calls := calls p @ [Call_poll events timeout_millis]\<rparr>))"

text \<open>
  The \<open>do ... while (result == -1)\<close> loop. The result is the value of \<open>result\<close> and of
  \<open>fds[1].revents & POLLIN\<close> at the exit; the latter is read by the caller only when
  \<open>result > 0\<close>, so it is given as \<open>False\<close> on the exits that leave \<open>fds\<close> unset.
\<close>

fun sslSelect_loop ::
  "poll_outcome list \<Rightarrow> ssl_error \<Rightarrow> AppData \<Rightarrow> int \<Rightarrow> proc
     \<Rightarrow> (int \<times> bool \<times> AppData \<times> proc) option" where
  "sslSelect_loop [] type appData timeout_millis p = None"
| "sslSelect_loop (po # pos) type appData timeout_millis p =
     (if closed_before po
      then Some (THROWN_EXCEPTION, False, appData, p\<lparr>pending := Some SocketException\<rparr>)
      else
        let events = (if type = SSL_ERROR_WANT_READ then POLLIN_POLLPRI else POLLOUT_POLLPRI);
            timeout_millis1 = (if timeout_millis \<le> 0 then - 1 else timeout_millis);
            (appData1, p1) = poll events timeout_millis1 po appData p;
            result = poll_result po
        in if result = - 1
           then if closed_after po
                then Some (THROWN_EXCEPTION, False, appData1,
                           p1\<lparr>pending := Some SocketException\<rparr>)
                else if errno p1 \<noteq> EINTR
                then Some (result, revents_POLLIN po, appData1, p1)
                else sslSelect_loop pos type appData1 timeout_millis1 p1
           else Some (result, revents_POLLIN po, appData1, p1))"

text \<open>
  One \<open>read(appData->fdsEmergency[0], &token, 1)\<close> on the non-blocking read end: interrupted
  (the script says so), or one byte taken when the pipe holds one, or \<open>EAGAIN\<close>.
\<close>

definition pipe_read :: "bool \<Rightarrow> proc \<Rightarrow> proc" where
  "pipe_read interrupted p =
     (if interrupted then p\<lparr>errno := EINTR, calls := calls p @ [Call_read]\<rparr>
      else if 0 < pipe p then p\<lparr>pipe := pipe p - 1, calls := calls p @ [Call_read]\<rparr>
      else p\<lparr>errno := EAGAIN, calls := calls p @ [Call_read]\<rparr>)"

text \<open>\<open>do { (void) read(...); } while (errno == EINTR);\<close>\<close>

fun drain_token :: "bool list \<Rightarrow> proc \<Rightarrow> proc option" where
  "drain_token [] p = None"
| "drain_token (interrupted # rest) p =
     (let p1 = pipe_read interrupted p
      in if errno p1 = EINTR then drain_token rest p1 else Some p1)"

definition sslSelect ::
  "poll_outcome list \<Rightarrow> bool list \<Rightarrow> ssl_error \<Rightarrow> AppData \<Rightarrow> int \<Rightarrow> proc
     \<Rightarrow> (int \<times> AppData \<times> proc) option" where
  "sslSelect pos reads type appData timeout_millis p =
     (case sslSelect_loop pos type appData timeout_millis p of
        None \<Rightarrow> None
      | Some (result, fds1_POLLIN, appData1, p1) \<Rightarrow>
          (case (if 0 < result \<and> fds1_POLLIN then drain_token reads p1 else Some p1) of
             None \<Rightarrow> None
           | Some p2 \<Rightarrow>
               Some (result, appData1\<lparr>waitingThreads := waitingThreads appData1 - 1\<rparr>, p2)))"

subsection \<open>NativeCrypto\_SSL\_interrupt\<close>

text \<open>
  The \<open>SSL*\<close> argument is \<open>None\<close> for a null address; an \<open>SSL\<close> object is modelled by its
  application-data slot, \<open>None\<close> when \<open>toAppData(ssl)\<close> is null. The two scripts answer the
  writes of the two \<open>sslNotify\<close> calls.
\<close>

type_synonym SSL = "AppData option"

definition NativeCrypto_SSL_interrupt ::
  "write_outcome list \<Rightarrow> write_outcome list \<Rightarrow> SSL option \<Rightarrow> proc
     \<Rightarrow> (SSL option \<times> proc) option" where
  "NativeCrypto_SSL_interrupt outs1 outs2 ssl p =
     (case ssl of
        None \<Rightarrow> Some (None, p)
      | Some None \<Rightarrow> Some (Some None, p)
      | Some (Some appData) \<Rightarrow>
          (let appData1 = appData\<lparr>aliveAndKicking := 0\<rparr>
           in case sslNotify outs1 p of
                None \<Rightarrow> None
              | Some p1 \<Rightarrow>
                  (case sslNotify outs2 p1 of
                     None \<Rightarrow> None
                   | Some p2 \<Rightarrow> Some (Some (Some appData1), p2))))"

text \<open>A caller that calls the entry point once per script pair, one call after the other.\<close>

fun interrupt_calls ::
  "(write_outcome list \<times> write_outcome list) list \<Rightarrow> SSL option \<Rightarrow> proc
     \<Rightarrow> (SSL option \<times> proc) option" where
  "interrupt_calls [] ssl p = Some (ssl, p)"
| "interrupt_calls ((outs1, outs2) # rest) ssl p =
     (case NativeCrypto_SSL_interrupt outs1 outs2 ssl p of
        None \<Rightarrow> None
      | Some (ssl1, p1) \<Rightarrow> interrupt_calls rest ssl1 p1)"

subsection \<open>One pass of the read and write loops\<close>

text \<open>
  What the environment answers during one pass through the body of the \<open>while\<close> loop of
  \<open>sslRead\<close> or \<open>sslWrite\<close>:
  \<^item> \<open>interrupt_first\<close>: another thread has completed \<open>NativeCrypto_SSL_interrupt\<close> since
    the previous test of \<open>aliveAndKicking\<close>;
  \<^item> \<open>init_finished\<close>, \<open>in_false_start\<close>, \<open>renegotiate_pending\<close>: the engine's answers to
    \<open>SSL_is_init_finished\<close>, \<open>SSL_in_false_start\<close>, \<open>SSL_renegotiate_pending\<close>;
  \<^item> \<open>fd_closed\<close>: \<open>NetFd::isClosed\<close> inside \<open>setCallbackState\<close>;
  \<^item> \<open>ssl_result\<close>: the return value of \<open>SSL_read\<close> or \<open>SSL_write\<close>;
  \<^item> \<open>exception_thrown\<close>: \<open>env->ExceptionCheck()\<close> after the engine call;
  \<^item> \<open>get_error\<close>: what \<open>SSL_get_error(ssl, result)\<close> returns;
  \<^item> \<open>engine_errno\<close>: errno after the engine call (it was set to 0 before);
  \<^item> \<open>bytes_moved\<close>: the BIO byte counters differ from their sum before the call;
  \<^item> \<open>notify_writes\<close>, \<open>polls\<close>, \<open>token_reads\<close>: the scripts of \<open>sslNotify\<close> and
    \<open>sslSelect\<close>, when the pass calls them.
\<close>

record iteration =
  interrupt_first :: bool
  init_finished :: bool
  in_false_start :: bool
  renegotiate_pending :: bool
  fd_closed :: bool
  ssl_result :: int
  exception_thrown :: bool
  get_error :: ssl_error
  engine_errno :: int
  bytes_moved :: bool
  notify_writes :: "write_outcome list"
  polls :: "poll_outcome list"
  token_reads :: "bool list"

text \<open>\<open>OpenSslError::reset\<close>\<close>

definition OpenSslError_reset :: "int \<Rightarrow> ssl_error \<Rightarrow> ssl_error" where
  "OpenSslError_reset returnCode ssl_get_error =
     (if returnCode \<le> 0 then ssl_get_error else SSL_ERROR_NONE)"

text \<open>\<open>AppData::setCallbackState\<close> on an open descriptor, and \<open>AppData::clearCallbackState\<close>.\<close>

definition setCallbackState :: "nat \<Rightarrow> nat \<Rightarrow> AppData \<Rightarrow> AppData" where
  "setCallbackState e shc appData = appData\<lparr>env := Some e, sslHandshakeCallbacks := Some shc\<rparr>"

definition clearCallbackState :: "AppData \<Rightarrow> AppData" where
  "clearCallbackState appData = appData\<lparr>sslHandshakeCallbacks := None, env := None\<rparr>"

text \<open>The engine calls: the call is recorded, errno and a callback's exception are left.\<close>

definition SSL_read :: "iteration \<Rightarrow> int \<Rightarrow> int \<Rightarrow> proc \<Rightarrow> proc" where
  "SSL_read it buf len p =
     p\<lparr>errno := engine_errno it,
       pending := (if exception_thrown it then Some CallbackException else pending p),
       calls := calls p @ [Call_SSL_read buf len]\<rparr>"

definition SSL_write :: "iteration \<Rightarrow> int \<Rightarrow> int \<Rightarrow> proc \<Rightarrow> proc" where
  "SSL_write it buf len p =
     p\<lparr>errno := engine_errno it,
       pending := (if exception_thrown it then Some CallbackException else pending p),
       calls := calls p @ [Call_SSL_write buf len]\<rparr>"

text \<open>How a pass through the loop body ends: a \<open>return\<close>, or on to the next test.\<close>

datatype pass = Return int | Next

text \<open>The three tests on the result of \<open>sslSelect\<close>, the same in both loops.\<close>

definition after_select :: "int \<Rightarrow> pass" where
  "after_select selectResult =
     (if selectResult = THROWN_EXCEPTION then Return THROWN_EXCEPTION
      else if selectResult = - 1 then Return THROW_SSLEXCEPTION
      else if selectResult = 0 then Return THROW_SOCKETTIMEOUTEXCEPTION
      else Next)"

text \<open>
  The part of the body both loops share, from \<open>sslError.reset\<close> to \<open>appDataLock.unlock()\<close>:
  the wake-up of a waiting thread after progress, and the count of the coming wait.
\<close>

definition notify_and_count ::
  "iteration \<Rightarrow> ssl_error \<Rightarrow> AppData \<Rightarrow> proc \<Rightarrow> (AppData \<times> proc) option" where
  "notify_and_count it sslError appData p =
     (case (if bytes_moved it \<and> 0 < waitingThreads appData
            then sslNotify (notify_writes it) p else Some p) of
        None \<Rightarrow> None
      | Some p1 \<Rightarrow>
          Some (if sslError = SSL_ERROR_WANT_READ \<or> sslError = SSL_ERROR_WANT_WRITE
                then appData\<lparr>waitingThreads := waitingThreads appData + 1\<rparr>
                else appData, p1))"

subsection \<open>sslRead\<close>

text \<open>
  The parameter \<open>OpenSslError& sslError\<close> is passed in and returned: the body assigns it in
  \<open>sslError.reset(ssl, result)\<close> and nowhere else, so the returns before that statement
  leave it as it came.
\<close>

definition sslRead_body ::
  "iteration \<Rightarrow> nat \<Rightarrow> nat \<Rightarrow> int \<Rightarrow> int \<Rightarrow> ssl_error \<Rightarrow> int \<Rightarrow> AppData \<Rightarrow> proc
     \<Rightarrow> (pass \<times> ssl_error \<times> AppData \<times> proc) option" where
  "sslRead_body it e shc buf len sslError0 read_timeout_millis appData p0 =
     (let p = p0\<lparr>errno := 0\<rparr>
      in if \<not> init_finished it \<and> \<not> in_false_start it \<and> \<not> renegotiate_pending it
         then Some (Return THROW_SSLEXCEPTION, sslError0, appData, p)
         else if fd_closed it
         then Some (Return THROWN_EXCEPTION, sslError0, appData,
                    p\<lparr>pending := Some SocketException\<rparr>)
         else
           let appData1 = clearCallbackState (setCallbackState e shc appData);
               result = ssl_result it;
               p1 = SSL_read it buf len p
           in if exception_thrown it
              then Some (Return THROWN_EXCEPTION, sslError0, appData1, p1)
              else
                let sslError = OpenSslError_reset result (get_error it)
                in case notify_and_count it sslError appData1 p1 of
                     None \<Rightarrow> None
                   | Some (appData2, p2) \<Rightarrow>
                       (case sslError of
                          SSL_ERROR_NONE \<Rightarrow> Some (Return result, sslError, appData2, p2)
                        | SSL_ERROR_ZERO_RETURN \<Rightarrow> Some (Return (- 1), sslError, appData2, p2)
                        | SSL_ERROR_WANT_READ \<Rightarrow>
                            (case sslSelect (polls it) (token_reads it) sslError appData2
                                    read_timeout_millis p2 of
                               None \<Rightarrow> None
                             | Some (selectResult, appData3, p3) \<Rightarrow>
                                 Some (after_select selectResult, sslError, appData3, p3))
                        | SSL_ERROR_WANT_WRITE \<Rightarrow>
                            (case sslSelect (polls it) (token_reads it) sslError appData2
                                    read_timeout_millis p2 of
                               None \<Rightarrow> None
                             | Some (selectResult, appData3, p3) \<Rightarrow>
                                 Some (after_select selectResult, sslError, appData3, p3))
                        | SSL_ERROR_SYSCALL \<Rightarrow>
                            (if result = 0 then Some (Return (- 1), sslError, appData2, p2)
                             else if errno p2 = EINTR then Some (Next, sslError, appData2, p2)
                             else Some (Return THROW_SSLEXCEPTION, sslError, appData2, p2))
                        | _ \<Rightarrow> Some (Return THROW_SSLEXCEPTION, sslError, appData2, p2)))"

text \<open>
  \<open>while (appData->aliveAndKicking) { ... } return -1;\<close> With the script at its end the
  loop can only leave through its test.
\<close>

fun sslRead_loop ::
  "iteration list \<Rightarrow> nat \<Rightarrow> nat \<Rightarrow> int \<Rightarrow> int \<Rightarrow> ssl_error \<Rightarrow> int \<Rightarrow> AppData \<Rightarrow> proc
     \<Rightarrow> (int \<times> ssl_error \<times> AppData \<times> proc) option" where
  "sslRead_loop [] e shc buf len sslError read_timeout_millis appData p =
     (if aliveAndKicking appData \<noteq> 0 then None else Some (- 1, sslError, appData, p))"
| "sslRead_loop (it # its) e shc buf len sslError read_timeout_millis appData0 p0 =
     (let (appData, p) = (if interrupt_first it
                          then interrupted_by_other_thread appData0 p0 else (appData0, p0))
      in if aliveAndKicking appData \<noteq> 0
         then (case sslRead_body it e shc buf len sslError read_timeout_millis appData p of
                 None \<Rightarrow> None
               | Some (Return r, sslError1, appData1, p1) \<Rightarrow> Some (r, sslError1, appData1, p1)
               | Some (Next, sslError1, appData1, p1) \<Rightarrow>
                   sslRead_loop its e shc buf len sslError1 read_timeout_millis appData1 p1)
         else Some (- 1, sslError, appData, p))"

definition sslRead ::
  "iteration list \<Rightarrow> nat \<Rightarrow> SSL \<Rightarrow> nat \<Rightarrow> int \<Rightarrow> int \<Rightarrow> ssl_error \<Rightarrow> int \<Rightarrow> proc
     \<Rightarrow> (int \<times> ssl_error \<times> SSL \<times> proc) option" where
  "sslRead its e ssl shc buf len sslError read_timeout_millis p =
     (if len = 0 then Some (0, sslError, ssl, p)
      else case ssl of
             None \<Rightarrow> Some (THROW_SSLEXCEPTION, sslError, ssl, p)
           | Some appData \<Rightarrow>
               (case sslRead_loop its e shc buf len sslError read_timeout_millis appData p of
                  None \<Rightarrow> None
                | Some (r, sslError1, appData1, p1) \<Rightarrow> Some (r, sslError1, Some appData1, p1)))"

subsection \<open>sslWrite\<close>

definition sslWrite_body ::
  "iteration \<Rightarrow> nat \<Rightarrow> nat \<Rightarrow> int \<Rightarrow> int \<Rightarrow> ssl_error \<Rightarrow> int \<Rightarrow> AppData \<Rightarrow> proc
     \<Rightarrow> (pass \<times> ssl_error \<times> int \<times> int \<times> AppData \<times> proc) option" where
  "sslWrite_body it e shc buf len sslError0 write_timeout_millis appData p0 =
     (let p = p0\<lparr>errno := 0\<rparr>
      in if \<not> init_finished it \<and> \<not> in_false_start it \<and> \<not> renegotiate_pending it
         then Some (Return THROW_SSLEXCEPTION, sslError0, buf, len, appData, p)
         else if fd_closed it
         then Some (Return THROWN_EXCEPTION, sslError0, buf, len, appData,
                    p\<lparr>pending := Some SocketException\<rparr>)
         else
           let appData1 = clearCallbackState (setCallbackState e shc appData);
               result = ssl_result it;
               p1 = SSL_write it buf len p
           in if exception_thrown it
              then Some (Return THROWN_EXCEPTION, sslError0, buf, len, appData1, p1)
              else
                let sslError = OpenSslError_reset result (get_error it)
                in case notify_and_count it sslError appData1 p1 of
                     None \<Rightarrow> None
                   | Some (appData2, p2) \<Rightarrow>
                       (case sslError of
                          SSL_ERROR_NONE \<Rightarrow>
                            Some (Next, sslError, buf + result, len - result, appData2, p2)
                        | SSL_ERROR_ZERO_RETURN \<Rightarrow>
                            Some (Return (- 1), sslError, buf, len, appData2, p2)
                        | SSL_ERROR_WANT_READ \<Rightarrow>
                            (case sslSelect (polls it) (token_reads it) sslError appData2
                                    write_timeout_millis p2 of
                               None \<Rightarrow> None
                             | Some (selectResult, appData3, p3) \<Rightarrow>
                                 Some (after_select selectResult, sslError, buf, len, appData3, p3))
                        | SSL_ERROR_WANT_WRITE \<Rightarrow>
                            (case sslSelect (polls it) (token_reads it) sslError appData2
                                    write_timeout_millis p2 of
                               None \<Rightarrow> None
                             | Some (selectResult, appData3, p3) \<Rightarrow>
                                 Some (after_select selectResult, sslError, buf, len, appData3, p3))
                        | SSL_ERROR_SYSCALL \<Rightarrow>
                            (if result = 0
                             then Some (Return (- 1), sslError, buf, len, appData2, p2)
                             else if errno p2 = EINTR
                             then Some (Next, sslError, buf, len, appData2, p2)
                             else Some (Return THROW_SSLEXCEPTION, sslError, buf, len,
                                        appData2, p2))
                        | _ \<Rightarrow> Some (Return THROW_SSLEXCEPTION, sslError, buf, len, appData2, p2)))"

text \<open>
  \<open>while (appData->aliveAndKicking && len > 0) { ... } return count;\<close> The lengths, the
  buffer position and the engine's results are C \<open>int\<close>s and a pointer; they are modelled as
  unbounded integers, the position as the offset from the start of the array. The engine
  returns at most the length it is given, so \<open>len -= result\<close> stays within \<open>0 .. len\<close>.
\<close>

fun sslWrite_loop ::
  "iteration list \<Rightarrow> nat \<Rightarrow> nat \<Rightarrow> int \<Rightarrow> int \<Rightarrow> int \<Rightarrow> ssl_error \<Rightarrow> int \<Rightarrow> AppData \<Rightarrow> proc
     \<Rightarrow> (int \<times> ssl_error \<times> AppData \<times> proc) option" where
  "sslWrite_loop [] e shc buf len count sslError write_timeout_millis appData p =
     (if aliveAndKicking appData \<noteq> 0 \<and> 0 < len then None
      else Some (count, sslError, appData, p))"
| "sslWrite_loop (it # its) e shc buf len count sslError write_timeout_millis appData0 p0 =
     (let (appData, p) = (if interrupt_first it
                          then interrupted_by_other_thread appData0 p0 else (appData0, p0))
      in if aliveAndKicking appData \<noteq> 0 \<and> 0 < len
         then (case sslWrite_body it e shc buf len sslError write_timeout_millis appData p of
                 None \<Rightarrow> None
               | Some (Return r, sslError1, buf1, len1, appData1, p1) \<Rightarrow>
                   Some (r, sslError1, appData1, p1)
               | Some (Next, sslError1, buf1, len1, appData1, p1) \<Rightarrow>
                   sslWrite_loop its e shc buf1 len1 count sslError1 write_timeout_millis
                     appData1 p1)
         else Some (count, sslError, appData, p))"

definition sslWrite ::
  "iteration list \<Rightarrow> nat \<Rightarrow> SSL \<Rightarrow> nat \<Rightarrow> int \<Rightarrow> int \<Rightarrow> ssl_error \<Rightarrow> int \<Rightarrow> proc
     \<Rightarrow> (int \<times> ssl_error \<times> SSL \<times> proc) option" where
  "sslWrite its e ssl shc buf len sslError write_timeout_millis p =
     (if len = 0 then Some (0, sslError, ssl, p)
      else case ssl of
             None \<Rightarrow> Some (THROW_SSLEXCEPTION, sslError, ssl, p)
           | Some appData \<Rightarrow>
               (let count = len
                in case sslWrite_loop its e shc buf len count sslError write_timeout_millis
                          appData p of
                     None \<Rightarrow> None
                   | Some (r, sslError1, appData1, p1) \<Rightarrow>
                       Some (r, sslError1, Some appData1, p1)))"

subsection \<open>The JNI entry points for read and write\<close>

text \<open>\<open>jniThrowException\<close> and its callers leave an exception pending.\<close>

definition throw :: "jthrowable \<Rightarrow> proc \<Rightarrow> proc" where
  "throw x p = p\<lparr>pending := Some x\<rparr>"

text \<open>
  \<open>throwSSLExceptionWithSslErrors\<close> with the default \<open>actualThrow\<close>. The exception is modelled
  by its class and the message argument; the text the function appends from the error
  code, the engine's error queue and errno is left out. \<open>asprintf_ok\<close> says whether the
  first \<open>asprintf\<close> succeeds: when it does not, the function throws through \<open>actualThrow\<close>
  at once; otherwise it throws \<open>SSLProtocolException\<close> for \<open>SSL_ERROR_SSL\<close> and through
  \<open>actualThrow\<close> for every other code.
\<close>

definition throwSSLExceptionWithSslErrors ::
  "bool \<Rightarrow> ssl_error \<Rightarrow> string \<Rightarrow> proc \<Rightarrow> proc" where
  "throwSSLExceptionWithSslErrors asprintf_ok sslErrorCode message p =
     (if \<not> asprintf_ok then throw (SSLException message) p
      else if sslErrorCode = SSL_ERROR_SSL then throw (SSLProtocolException message) p
      else throw (SSLException message) p)"

text \<open>
  The arguments \<open>fdObject\<close>, \<open>shc\<close> and \<open>b\<close> are \<open>None\<close> for a null reference. The byte array
  is modelled by the address of its first element; \<open>bytes.get()\<close> is null exactly when
  \<open>b\<close> is. \<open>OpenSslError sslError;\<close> starts as \<open>SSL_ERROR_NONE\<close>, and \<open>sslError.release()\<close>
  gives the value \<open>sslRead\<close> or \<open>sslWrite\<close> left in it.
\<close>

definition NativeCrypto_SSL_read ::
  "iteration list \<Rightarrow> bool \<Rightarrow> nat \<Rightarrow> SSL option \<Rightarrow> nat option \<Rightarrow> nat option \<Rightarrow> int option
     \<Rightarrow> int \<Rightarrow> int \<Rightarrow> int \<Rightarrow> proc \<Rightarrow> (int \<times> SSL option \<times> proc) option" where
  "NativeCrypto_SSL_read its asprintf_ok e ssl_address fdObject shc b offset len
       read_timeout_millis p =
     (case ssl_address of
        None \<Rightarrow> Some (0, None, throw (NullPointerException ''ssl == null'') p)
      | Some ssl \<Rightarrow>
          (case fdObject of
             None \<Rightarrow> Some (0, Some ssl, throw (NullPointerException ''fd == null'') p)
           | Some fd \<Rightarrow>
               (case shc of
                  None \<Rightarrow>
                    Some (0, Some ssl,
                          throw (NullPointerException ''sslHandshakeCallbacks == null'') p)
                | Some shc1 \<Rightarrow>
                    (case b of
                       None \<Rightarrow> Some (0, Some ssl, throw ArrayException p)
                     | Some bytes \<Rightarrow>
                         (case sslRead its e ssl shc1 (bytes + offset) len SSL_ERROR_NONE
                                 read_timeout_millis p of
                            None \<Rightarrow> None
                          | Some (ret, sslError, ssl1, p1) \<Rightarrow>
                              (if ret = THROW_SSLEXCEPTION
                               then Some (- 1, Some ssl1,
                                          throwSSLExceptionWithSslErrors asprintf_ok sslError
                                            ''Read error'' p1)
                               else if ret = THROW_SOCKETTIMEOUTEXCEPTION
                               then Some (- 1, Some ssl1,
                                          throw (SocketTimeoutException ''Read timed out'') p1)
                               else if ret = THROWN_EXCEPTION
                               then Some (- 1, Some ssl1, p1)
                               else Some (ret, Some ssl1, p1)))))))"

text \<open>The function is \<open>void\<close>: the result is the state it leaves.\<close>

definition NativeCrypto_SSL_write ::
  "iteration list \<Rightarrow> bool \<Rightarrow> nat \<Rightarrow> SSL option \<Rightarrow> nat option \<Rightarrow> nat option \<Rightarrow> int option
     \<Rightarrow> int \<Rightarrow> int \<Rightarrow> int \<Rightarrow> proc \<Rightarrow> (SSL option \<times> proc) option" where
  "NativeCrypto_SSL_write its asprintf_ok e ssl_address fdObject shc b offset len
       write_timeout_millis p =
     (case ssl_address of
        None \<Rightarrow> Some (None, throw (NullPointerException ''ssl == null'') p)
      | Some ssl \<Rightarrow>
          (case fdObject of
             None \<Rightarrow> Some (Some ssl, throw (NullPointerException ''fd == null'') p)
           | Some fd \<Rightarrow>
               (case shc of
                  None \<Rightarrow>
                    Some (Some ssl,
                          throw (NullPointerException ''sslHandshakeCallbacks == null'') p)
                | Some shc1 \<Rightarrow>
                    (case b of
                       None \<Rightarrow> Some (Some ssl, throw ArrayException p)
                     | Some bytes \<Rightarrow>
                         (case sslWrite its e ssl shc1 (bytes + offset) len SSL_ERROR_NONE
                                 write_timeout_millis p of
                            None \<Rightarrow> None
                          | Some (ret, sslError, ssl1, p1) \<Rightarrow>
                              (if ret = THROW_SSLEXCEPTION
                               then Some (Some ssl1,
                                          throwSSLExceptionWithSslErrors asprintf_ok sslError
                                            ''Write error'' p1)
                               else if ret = THROW_SOCKETTIMEOUTEXCEPTION
                               then Some (Some ssl1,
                                          throw (SocketTimeoutException ''Write timed out'') p1)
                               else if ret = THROWN_EXCEPTION
                               then Some (Some ssl1, p1)
                               else Some (Some ssl1, p1)))))))"

subsection \<open>Notions used to state the properties\<close>

text \<open>
  A script of \<open>sslNotify\<close> lets the call return when it holds an outcome other than failure
  with \<open>EINTR\<close>; the first such outcome is the one of the last write of the call.
\<close>

definition wake_returns :: "write_outcome list \<Rightarrow> bool" where
  "wake_returns outs = (dropWhile (\<lambda>out. out = WriteFailed EINTR) outs \<noteq> [])"

definition delivered :: "write_outcome list \<Rightarrow> nat" where
  "delivered outs =
     (case dropWhile (\<lambda>out. out = WriteFailed EINTR) outs of Written # rest \<Rightarrow> 1 | _ \<Rightarrow> 0)"

definition attempts :: "write_outcome list \<Rightarrow> nat" where
  "attempts outs = Suc (length (takeWhile (\<lambda>out. out = WriteFailed EINTR) outs))"

fun wake_bytes :: "(write_outcome list \<times> write_outcome list) list \<Rightarrow> nat" where
  "wake_bytes [] = 0"
| "wake_bytes ((outs1, outs2) # rest) = delivered outs1 + delivered outs2 + wake_bytes rest"

fun wakes_return :: "(write_outcome list \<times> write_outcome list) list \<Rightarrow> bool" where
  "wakes_return [] = True"
| "wakes_return ((outs1, outs2) # rest) =
     (wake_returns outs1 \<and> wake_returns outs2 \<and> wakes_return rest)"


text \<open>The timeouts given to \<open>poll\<close>, and the engine writes, in the order of the calls.\<close>

definition poll_timeouts :: "call list \<Rightarrow> int list" where
  "poll_timeouts cs = concat (map (\<lambda>c. case c of Call_poll events t \<Rightarrow> [t] | _ \<Rightarrow> []) cs)"

definition write_calls :: "call list \<Rightarrow> call list" where
  "write_calls cs = filter (\<lambda>c. case c of Call_SSL_write buf len \<Rightarrow> True | _ \<Rightarrow> False) cs"

text \<open>
  What the specification asks of a write, given the number of bytes the engine confirms
  in each pass (0 in a pass that only waits or retries): while bytes remain, a step is
  issued at the buffer position behind the bytes confirmed so far, for the bytes that
  remain; \<open>spec_confirmed\<close> is the number of bytes confirmed when the steps stop, and
  \<open>within_offer\<close> says that no step confirms more than it was offered.
\<close>

fun spec_write_steps :: "int \<Rightarrow> int \<Rightarrow> int list \<Rightarrow> call list" where
  "spec_write_steps buf len [] = []"
| "spec_write_steps buf len (n # ns) =
     (if 0 < len then Call_SSL_write buf len # spec_write_steps (buf + n) (len - n) ns
      else [])"

fun spec_confirmed :: "int \<Rightarrow> int list \<Rightarrow> int" where
  "spec_confirmed len [] = 0"
| "spec_confirmed len (n # ns) = (if 0 < len then n + spec_confirmed (len - n) ns else 0)"

fun within_offer :: "int \<Rightarrow> int list \<Rightarrow> bool" where
  "within_offer len [] = True"
| "within_offer len (n # ns) = (if 0 < len then n \<le> len \<and> within_offer (len - n) ns else True)"

text \<open>Conditions on one pass of the read or write loop.\<close>

definition handshake_unfinished :: "iteration \<Rightarrow> bool" where
  "handshake_unfinished it =
     (\<not> init_finished it \<and> \<not> in_false_start it \<and> \<not> renegotiate_pending it)"

definition reaches_switch :: "iteration \<Rightarrow> bool" where
  "reaches_switch it =
     (\<not> interrupt_first it \<and> \<not> handshake_unfinished it \<and> \<not> fd_closed it
      \<and> \<not> exception_thrown it \<and> wake_returns (notify_writes it))"

definition sslError_of :: "iteration \<Rightarrow> ssl_error" where
  "sslError_of it = OpenSslError_reset (ssl_result it) (get_error it)"

definition accepts_chunk :: "iteration \<Rightarrow> bool" where
  "accepts_chunk it = (reaches_switch it \<and> 0 < ssl_result it)"



text \<open>The bytes the engine confirms in a pass of the write loop.\<close>

definition taken :: "iteration \<Rightarrow> int" where
  "taken it = (if sslError_of it = SSL_ERROR_NONE then ssl_result it else 0)"

subsection \<open>Example inputs\<close>

text \<open>
  A connection with one other thread waiting, a thread state whose errno is 7, a polling
  round in which the socket becomes ready, and a pass in which the engine takes two bytes.
\<close>

definition ex_appData :: AppData where
  "ex_appData =
     \<lparr>aliveAndKicking = 1, waitingThreads = 1, env = None, sslHandshakeCallbacks = None\<rparr>"

definition ex_proc :: proc where
  "ex_proc = \<lparr>errno = 7, pipe = 0, pending = None, calls = []\<rparr>"

definition ex_round :: poll_outcome where
  "ex_round =
     \<lparr>closed_before = False, interrupt_during = False, arrived = 0, poll_result = 1,
        poll_errno = 0, closed_after = False, revents_POLLIN = False\<rparr>"

definition ex_pass :: iteration where
  "ex_pass =
     \<lparr>interrupt_first = False, init_finished = True, in_false_start = False,
        renegotiate_pending = False, fd_closed = False, ssl_result = 2,
        exception_thrown = False, get_error = SSL_ERROR_NONE, engine_errno = 0,
        bytes_moved = True, notify_writes = [Written], polls = [ex_round],
        token_reads = [False]\<rparr>"

lemmas ex_defs = ex_appData_def ex_proc_def ex_round_def ex_pass_def

text \<open>The definitions a run on example inputs unfolds.\<close>

lemmas run_defs =
  NativeCrypto_SSL_read_def NativeCrypto_SSL_write_def throwSSLExceptionWithSslErrors_def
  throw_def sslRead_def sslWrite_def sslRead_body_def sslWrite_body_def notify_and_count_def
  sslNotify_def pipe_write_def OpenSslError_reset_def setCallbackState_def
  clearCallbackState_def SSL_read_def SSL_write_def after_select_def sslSelect_def poll_def
  pipe_read_def interrupted_by_other_thread_def Let_def EINTR_def EAGAIN_def
  THROWN_EXCEPTION_def THROW_SSLEXCEPTION_def THROW_SOCKETTIMEOUTEXCEPTION_def

section \<open>Properties\<close>

subsection \<open>sslNotify\<close>

lemma EINTR_nonzero: "EINTR \<noteq> 0"
  by (simp add: EINTR_def)

lemma sslNotify_loop_wake:
  "wake_returns outs \<Longrightarrow>
   sslNotify_loop outs p =
     Some (p\<lparr>errno := (case dropWhile (\<lambda>out. out = WriteFailed EINTR) outs of
                          WriteFailed e # rest \<Rightarrow> e | _ \<Rightarrow> 0),
             pipe := pipe p + delivered outs,
             calls := calls p @ replicate (attempts outs) Call_write\<rparr>)"
proof (induction outs arbitrary: p)
  case Nil
  then show ?case by (simp add: wake_returns_def)
next
  case (Cons out outs)
  show ?case
  proof (cases "out = WriteFailed EINTR")
    case True
    with Cons.prems have "wake_returns outs" by (simp add: wake_returns_def)
    from Cons.IH [OF this] True show ?thesis
      by (simp add: pipe_write_def delivered_def attempts_def replicate_append_same)
  next
    case False
    then show ?thesis
      by (cases out) (simp_all add: pipe_write_def delivered_def attempts_def EINTR_nonzero)
  qed
qed

lemma sslNotify_wake:
  "wake_returns outs \<Longrightarrow>
   sslNotify outs p =
     Some (p\<lparr>pipe := pipe p + delivered outs,
             calls := calls p @ replicate (attempts outs) Call_write\<rparr>)"
  by (simp add: sslNotify_def sslNotify_loop_wake)

lemma sslNotify_loop_stuck: "\<not> wake_returns outs \<Longrightarrow> sslNotify_loop outs p = None"
  by (induction outs arbitrary: p) (auto simp: wake_returns_def pipe_write_def split: if_splits)

lemma sslNotify_Some_iff: "(\<exists>p'. sslNotify outs p = Some p') = wake_returns outs"
proof (cases "wake_returns outs")
  case True
  then show ?thesis by (simp add: sslNotify_wake)
next
  case False
  then show ?thesis by (simp add: sslNotify_def sslNotify_loop_stuck)
qed

lemma wake_returns_script:
  "out \<noteq> WriteFailed EINTR \<Longrightarrow> wake_returns (replicate k (WriteFailed EINTR) @ out # rest)"
  by (simp add: wake_returns_def dropWhile_append)

lemma delivered_script:
  "out \<noteq> WriteFailed EINTR \<Longrightarrow>
   delivered (replicate k (WriteFailed EINTR) @ out # rest) = (if out = Written then 1 else 0)"
  by (cases out) (simp_all add: delivered_def dropWhile_append)

lemma attempts_script:
  "out \<noteq> WriteFailed EINTR \<Longrightarrow> attempts (replicate k (WriteFailed EINTR) @ out # rest) = Suc k"
  by (simp add: attempts_def takeWhile_append)

text \<open>
  C8. \<open>sslNotify\<close> leaves errno as it found it, whatever the writes did. When its first
  \<open>k\<close> writes are interrupted and the next one is not, it makes exactly \<open>k + 1\<close> writes: it
  retries after \<open>EINTR\<close> and after nothing else, a write that fails otherwise ends the call
  like one that succeeds, and the only trace of the call is the one byte of a successful
  write in the self-pipe.
\<close>

theorem sslNotify_single_byte_errno_kept:
  "(sslNotify outs p = Some p' \<longrightarrow> errno p' = errno p)
   \<and> (out \<noteq> WriteFailed EINTR \<longrightarrow>
        sslNotify (replicate k (WriteFailed EINTR) @ out # rest) p =
          Some (p\<lparr>pipe := pipe p + (if out = Written then 1 else 0),
                  calls := calls p @ replicate (Suc k) Call_write\<rparr>))"
proof (intro conjI impI)
  assume r: "sslNotify outs p = Some p'"
  then have "wake_returns outs" using sslNotify_Some_iff by blast
  from sslNotify_wake [OF this, of p] r show "errno p' = errno p" by auto
next
  assume ne: "out \<noteq> WriteFailed EINTR"
  then have w: "wake_returns (replicate k (WriteFailed EINTR) @ out # rest)"
    by (rule wake_returns_script)
  show "sslNotify (replicate k (WriteFailed EINTR) @ out # rest) p =
          Some (p\<lparr>pipe := pipe p + (if out = Written then 1 else 0),
                  calls := calls p @ replicate (Suc k) Call_write\<rparr>)"
    using sslNotify_wake [OF w, of p] ne
    by (simp add: delivered_script attempts_script)
qed

theorem sslNotify_single_byte_errno_kept_witness:
  "sslNotify [WriteFailed EINTR, WriteFailed EINTR, Written, Written]
      \<lparr>errno = 7, pipe = 0, pending = None, calls = []\<rparr>
     = Some \<lparr>errno = 7, pipe = 1, pending = None, calls = [Call_write, Call_write, Call_write]\<rparr>
   \<and> sslNotify [WriteFailed EINTR, WriteFailed 9, Written]
      \<lparr>errno = 7, pipe = 0, pending = None, calls = []\<rparr>
     = Some \<lparr>errno = 7, pipe = 0, pending = None, calls = [Call_write, Call_write]\<rparr>
   \<and> errno \<lparr>errno = 7, pipe = 1, pending = None, calls = [Call_write, Call_write, Call_write]\<rparr>
     = errno \<lparr>errno = 7, pipe = 0, pending = None, calls = []\<rparr>"
  using sslNotify_single_byte_errno_kept
          [of "[WriteFailed EINTR, WriteFailed EINTR, Written, Written]"
              "\<lparr>errno = 7, pipe = 0, pending = None, calls = []\<rparr>"
              "\<lparr>errno = 7, pipe = 1, pending = None,
                 calls = [Call_write, Call_write, Call_write]\<rparr>"
              Written 2 "[Written]"]
        sslNotify_single_byte_errno_kept
          [of "[]" "\<lparr>errno = 7, pipe = 0, pending = None, calls = []\<rparr>"
              "\<lparr>errno = 7, pipe = 0, pending = None, calls = []\<rparr>"
              "WriteFailed 9" 1 "[Written]"]
  by (simp add: EINTR_def numeral_2_eq_2)

subsection \<open>sslSelect\<close>

lemma poll_timeouts_append: "poll_timeouts (cs @ ds) = poll_timeouts cs @ poll_timeouts ds"
  by (simp add: poll_timeouts_def)

lemma poll_timeouts_simps:
  "poll_timeouts [] = []"
  "poll_timeouts [Call_poll events t] = [t]"
  "poll_timeouts [Call_read] = []"
  "poll_timeouts [Call_write] = []"
  by (simp_all add: poll_timeouts_def)

lemma poll_effect:
  "poll events t po appData p = (appData1, p1) \<Longrightarrow>
   waitingThreads appData1 = waitingThreads appData
   \<and> env appData1 = env appData
   \<and> sslHandshakeCallbacks appData1 = sslHandshakeCallbacks appData
   \<and> (aliveAndKicking appData1 = aliveAndKicking appData \<or> aliveAndKicking appData1 = 0)
   \<and> pending p1 = pending p
   \<and> calls p1 = calls p @ [Call_poll events t]
   \<and> errno p1 = (if poll_result po = - 1 then poll_errno po else errno p)"
  by (auto simp: poll_def interrupted_by_other_thread_def split: if_splits)

lemma timeout_translated_twice:
  "(if (if t \<le> 0 then - 1 else t) \<le> 0 then - 1 else (if t \<le> 0 then - 1 else t))
     = (if t \<le> (0::int) then - 1 else t)"
  by simp

lemma sslSelect_loop_effect:
  "sslSelect_loop pos type appData t p = Some (r, f, appData1, p1) \<Longrightarrow>
   waitingThreads appData1 = waitingThreads appData
   \<and> env appData1 = env appData
   \<and> sslHandshakeCallbacks appData1 = sslHandshakeCallbacks appData
   \<and> (aliveAndKicking appData1 = aliveAndKicking appData \<or> aliveAndKicking appData1 = 0)
   \<and> (\<exists>n. poll_timeouts (calls p1) =
             poll_timeouts (calls p) @ replicate n (if t \<le> 0 then - 1 else t))"
proof (induction pos arbitrary: appData t p)
  case Nil
  then show ?case by simp
next
  case (Cons po pos)
  define ev where "ev = (if type = SSL_ERROR_WANT_READ then POLLIN_POLLPRI else POLLOUT_POLLPRI)"
  define tm where "tm = (if t \<le> 0 then - 1 else t)"
  have tm_tm: "(if tm \<le> 0 then - 1 else tm) = tm"
    unfolding tm_def by (rule timeout_translated_twice)
  show ?case
  proof (cases "closed_before po")
    case True
    with Cons.prems have "appData1 = appData" "calls p1 = calls p" by auto
    then have "poll_timeouts (calls p1) = poll_timeouts (calls p) @ replicate 0 tm" by simp
    with \<open>appData1 = appData\<close> show ?thesis unfolding tm_def by blast
  next
    case False
    obtain a2 p2 where pl: "poll ev tm po appData p = (a2, p2)" by (cases "poll ev tm po appData p")
    note eff = poll_effect [OF pl]
    have one: "poll_timeouts (calls p2) = poll_timeouts (calls p) @ replicate (Suc 0) tm"
      using eff by (simp add: poll_timeouts_append poll_timeouts_simps)
    show ?thesis
    proof (cases "poll_result po = - 1 \<and> \<not> closed_after po \<and> errno p2 = EINTR")
      case True
      with Cons.prems False pl
      have rec: "sslSelect_loop pos type a2 tm p2 = Some (r, f, appData1, p1)"
        by (simp add: ev_def tm_def Let_def)
      from Cons.IH [OF rec] obtain n where
        a: "waitingThreads appData1 = waitingThreads a2" "env appData1 = env a2"
           "sslHandshakeCallbacks appData1 = sslHandshakeCallbacks a2"
           "aliveAndKicking appData1 = aliveAndKicking a2 \<or> aliveAndKicking appData1 = 0"
        and n: "poll_timeouts (calls p1) = poll_timeouts (calls p2) @ replicate n tm"
        unfolding tm_tm by blast
      from n one have "poll_timeouts (calls p1) = poll_timeouts (calls p) @ replicate (Suc n) tm"
        by (simp add: replicate_append_same)
      then have ex: "\<exists>n. poll_timeouts (calls p1) = poll_timeouts (calls p) @ replicate n tm" ..
      from a eff ex show ?thesis unfolding tm_def by auto
    next
      case stop: False
      with Cons.prems False pl
      have "appData1 = a2" "calls p1 = calls p2"
        by (auto simp: ev_def tm_def Let_def split: if_splits)
      with one have "poll_timeouts (calls p1) = poll_timeouts (calls p) @ replicate (Suc 0) tm"
        by simp
      then have ex: "\<exists>n. poll_timeouts (calls p1) = poll_timeouts (calls p) @ replicate n tm" ..
      from \<open>appData1 = a2\<close> eff ex show ?thesis unfolding tm_def by auto
    qed
  qed
qed

lemma drain_token_effect:
  "drain_token reads p = Some p1 \<Longrightarrow>
   poll_timeouts (calls p1) = poll_timeouts (calls p) \<and> pending p1 = pending p"
proof (induction reads arbitrary: p)
  case Nil
  then show ?case by simp
next
  case (Cons b reads)
  have step: "poll_timeouts (calls (pipe_read b p)) = poll_timeouts (calls p)"
             "pending (pipe_read b p) = pending p"
    by (simp_all add: pipe_read_def poll_timeouts_append poll_timeouts_simps)
  show ?case
  proof (cases "errno (pipe_read b p) = EINTR")
    case True
    with Cons.prems have "drain_token reads (pipe_read b p) = Some p1" by simp
    from Cons.IH [OF this] step show ?thesis by simp
  next
    case False
    with Cons.prems have "p1 = pipe_read b p" by simp
    with step show ?thesis by simp
  qed
qed

lemma sslSelect_effect:
  assumes "sslSelect pos reads type appData t p = Some (r, appData1, p1)"
  shows "waitingThreads appData1 = waitingThreads appData - 1"
    and "env appData1 = env appData"
    and "sslHandshakeCallbacks appData1 = sslHandshakeCallbacks appData"
    and "aliveAndKicking appData1 = aliveAndKicking appData \<or> aliveAndKicking appData1 = 0"
    and "\<exists>n. poll_timeouts (calls p1) =
             poll_timeouts (calls p) @ replicate n (if t \<le> 0 then - 1 else t)"
proof -
  from assms obtain f a2 p2 where
    l: "sslSelect_loop pos type appData t p = Some (r, f, a2, p2)"
    and d: "(if 0 < r \<and> f then drain_token reads p2 else Some p2) = Some p1"
    and a: "appData1 = a2\<lparr>waitingThreads := waitingThreads a2 - 1\<rparr>"
    by (auto simp: sslSelect_def split: option.splits)
  note e = sslSelect_loop_effect [OF l]
  from d have "poll_timeouts (calls p1) = poll_timeouts (calls p2)"
    using drain_token_effect by (auto split: if_splits)
  with e a show "waitingThreads appData1 = waitingThreads appData - 1"
    and "env appData1 = env appData"
    and "sslHandshakeCallbacks appData1 = sslHandshakeCallbacks appData"
    and "aliveAndKicking appData1 = aliveAndKicking appData \<or> aliveAndKicking appData1 = 0"
    and "\<exists>n. poll_timeouts (calls p1) =
             poll_timeouts (calls p) @ replicate n (if t \<le> 0 then - 1 else t)"
    by auto
qed


lemma notify_and_count_effect:
  assumes "notify_and_count it sslError appData p = Some (appData2, p2)"
  shows "appData2 = (if sslError = SSL_ERROR_WANT_READ \<or> sslError = SSL_ERROR_WANT_WRITE
                     then appData\<lparr>waitingThreads := waitingThreads appData + 1\<rparr> else appData)"
    and "errno p2 = errno p"
    and "pending p2 = pending p"
    and "poll_timeouts (calls p2) = poll_timeouts (calls p)"
proof -
  from assms obtain q where
    q: "(if bytes_moved it \<and> 0 < waitingThreads appData
         then sslNotify (notify_writes it) p else Some p) = Some q"
    and r: "appData2 = (if sslError = SSL_ERROR_WANT_READ \<or> sslError = SSL_ERROR_WANT_WRITE
                     then appData\<lparr>waitingThreads := waitingThreads appData + 1\<rparr> else appData)"
           "p2 = q"
    by (auto simp: notify_and_count_def split: option.splits)
  show "appData2 = (if sslError = SSL_ERROR_WANT_READ \<or> sslError = SSL_ERROR_WANT_WRITE
                     then appData\<lparr>waitingThreads := waitingThreads appData + 1\<rparr> else appData)"
    by (rule r)
  have "errno q = errno p \<and> pending q = pending p
        \<and> poll_timeouts (calls q) = poll_timeouts (calls p)"
  proof (cases "bytes_moved it \<and> 0 < waitingThreads appData")
    case True
    with q have n: "sslNotify (notify_writes it) p = Some q" by simp
    then have "wake_returns (notify_writes it)" using sslNotify_Some_iff by blast
    from sslNotify_wake [OF this, of p] n show ?thesis
      by (auto simp: poll_timeouts_append poll_timeouts_def)
  next
    case False
    with q show ?thesis by simp
  qed
  with r show "errno p2 = errno p" "pending p2 = pending p"
    "poll_timeouts (calls p2) = poll_timeouts (calls p)" by simp_all
qed

lemma after_wait_count:
  assumes n: "notify_and_count it sslError appData1 p1 = Some (appData2, p2)"
    and w: "sslError = SSL_ERROR_WANT_READ \<or> sslError = SSL_ERROR_WANT_WRITE"
    and s: "sslSelect pos reads sslError appData2 t p2 = Some (r, appData3, p3)"
  shows "waitingThreads appData3 = waitingThreads appData1"
  using notify_and_count_effect(1) [OF n] w sslSelect_effect(1) [OF s] by auto

lemma callback_state_count:
  "waitingThreads (clearCallbackState (setCallbackState e shc appData)) = waitingThreads appData"
  by (simp add: clearCallbackState_def setCallbackState_def)



subsection \<open>The body of the read and write loops\<close>

lemma write_calls_append: "write_calls (cs @ ds) = write_calls cs @ write_calls ds"
  by (simp add: write_calls_def)

lemma write_calls_simps:
  "write_calls [] = []"
  "write_calls [Call_SSL_write buf len] = [Call_SSL_write buf len]"
  "write_calls [Call_poll events t] = []"
  "write_calls [Call_read] = []"
  "write_calls [Call_write] = []"
  "write_calls (replicate n Call_write) = []"
  by (simp_all add: write_calls_def)

lemma sslSelect_loop_keeps:
  "sslSelect_loop pos type appData t p = Some (r, f, appData1, p1) \<Longrightarrow>
   write_calls (calls p1) = write_calls (calls p)
   \<and> (r \<noteq> THROWN_EXCEPTION \<longrightarrow> pending p1 = pending p)"
proof (induction pos arbitrary: appData t p)
  case Nil
  then show ?case by simp
next
  case (Cons po pos)
  define ev where "ev = (if type = SSL_ERROR_WANT_READ then POLLIN_POLLPRI else POLLOUT_POLLPRI)"
  define tm where "tm = (if t \<le> 0 then - 1 else t)"
  show ?case
  proof (cases "closed_before po")
    case True
    with Cons.prems show ?thesis by auto
  next
    case False
    obtain a2 p2 where pl: "poll ev tm po appData p = (a2, p2)" by (cases "poll ev tm po appData p")
    note eff = poll_effect [OF pl]
    have one: "write_calls (calls p2) = write_calls (calls p)" "pending p2 = pending p"
      using eff by (simp_all add: write_calls_append write_calls_simps)
    show ?thesis
    proof (cases "poll_result po = - 1 \<and> \<not> closed_after po \<and> errno p2 = EINTR")
      case True
      with Cons.prems False pl
      have rec: "sslSelect_loop pos type a2 tm p2 = Some (r, f, appData1, p1)"
        by (simp add: ev_def tm_def Let_def)
      from Cons.IH [OF rec] one show ?thesis by simp
    next
      case stop: False
      with Cons.prems False pl
      have "calls p1 = calls p2" "r \<noteq> THROWN_EXCEPTION \<longrightarrow> pending p1 = pending p2"
        by (auto simp: ev_def tm_def Let_def split: if_splits)
      with one show ?thesis by simp
    qed
  qed
qed

lemma drain_token_keeps:
  "drain_token reads p = Some p1 \<Longrightarrow> write_calls (calls p1) = write_calls (calls p)"
proof (induction reads arbitrary: p)
  case Nil
  then show ?case by simp
next
  case (Cons b reads)
  have step: "write_calls (calls (pipe_read b p)) = write_calls (calls p)"
    by (simp add: pipe_read_def write_calls_append write_calls_simps)
  show ?case
  proof (cases "errno (pipe_read b p) = EINTR")
    case True
    with Cons.prems have "drain_token reads (pipe_read b p) = Some p1" by simp
    from Cons.IH [OF this] step show ?thesis by simp
  next
    case False
    with Cons.prems have "p1 = pipe_read b p" by simp
    with step show ?thesis by simp
  qed
qed

lemma sslSelect_keeps:
  assumes "sslSelect pos reads type appData t p = Some (r, appData1, p1)"
  shows "write_calls (calls p1) = write_calls (calls p)"
    and "r \<noteq> THROWN_EXCEPTION \<Longrightarrow> pending p1 = pending p"
proof -
  from assms obtain f a2 p2 where
    l: "sslSelect_loop pos type appData t p = Some (r, f, a2, p2)"
    and d: "(if 0 < r \<and> f then drain_token reads p2 else Some p2) = Some p1"
    by (auto simp: sslSelect_def split: option.splits)
  note k = sslSelect_loop_keeps [OF l]
  from d have "write_calls (calls p1) = write_calls (calls p2)" "pending p1 = pending p2"
    using drain_token_keeps drain_token_effect by (auto split: if_splits)
  with k show "write_calls (calls p1) = write_calls (calls p)"
    and "r \<noteq> THROWN_EXCEPTION \<Longrightarrow> pending p1 = pending p" by simp_all
qed

lemma notify_and_count_keeps:
  assumes "notify_and_count it sslError appData p = Some (appData2, p2)"
  shows "write_calls (calls p2) = write_calls (calls p)"
proof (cases "bytes_moved it \<and> 0 < waitingThreads appData")
  case True
  with assms have n: "sslNotify (notify_writes it) p = Some p2"
    by (auto simp: notify_and_count_def split: option.splits)
  then have "wake_returns (notify_writes it)" using sslNotify_Some_iff by blast
  from sslNotify_wake [OF this, of p] n show ?thesis
    by (auto simp: write_calls_append write_calls_simps)
next
  case False
  with assms show ?thesis by (auto simp: notify_and_count_def)
qed

lemma callback_state_alive:
  "aliveAndKicking (clearCallbackState (setCallbackState e shc appData)) = aliveAndKicking appData"
  by (simp add: clearCallbackState_def setCallbackState_def)

lemma after_select_Return:
  "after_select r = Return c \<Longrightarrow>
   c = THROW_SSLEXCEPTION \<or> c = THROW_SOCKETTIMEOUTEXCEPTION \<or> c = THROWN_EXCEPTION"
  by (auto simp: after_select_def split: if_splits)

lemma after_select_Next: "after_select r = Next \<Longrightarrow> r \<noteq> THROWN_EXCEPTION"
  by (auto simp: after_select_def split: if_splits)

text \<open>What a pass of the write loop that does not return at once has done.\<close>

lemma sslWrite_body_effect:
  assumes run: "sslWrite_body it e shc buf len err0 t appData p
                  = Some (s, err1, buf1, len1, appData1, p1)"
  shows "waitingThreads appData1 = waitingThreads appData"
    and "aliveAndKicking appData1 = aliveAndKicking appData \<or> aliveAndKicking appData1 = 0"
    and "s = Next \<Longrightarrow>
           buf1 = buf + taken it \<and> len1 = len - taken it \<and> pending p1 = pending p
           \<and> write_calls (calls p1) = write_calls (calls p) @ [Call_SSL_write buf len]"
    and "s = Return c \<Longrightarrow>
           c = - 1 \<or> c = THROW_SSLEXCEPTION \<or> c = THROW_SOCKETTIMEOUTEXCEPTION
           \<or> c = THROWN_EXCEPTION"
proof -
  have "waitingThreads appData1 = waitingThreads appData
      \<and> (aliveAndKicking appData1 = aliveAndKicking appData \<or> aliveAndKicking appData1 = 0)
      \<and> (s = Next \<longrightarrow>
           buf1 = buf + taken it \<and> len1 = len - taken it \<and> pending p1 = pending p
           \<and> write_calls (calls p1) = write_calls (calls p) @ [Call_SSL_write buf len])
      \<and> (s = Return c \<longrightarrow>
           c = - 1 \<or> c = THROW_SSLEXCEPTION \<or> c = THROW_SOCKETTIMEOUTEXCEPTION
           \<or> c = THROWN_EXCEPTION)"
  proof (cases "handshake_unfinished it \<or> fd_closed it \<or> exception_thrown it")
    case True
    with run show ?thesis
      by (auto simp: sslWrite_body_def handshake_unfinished_def Let_def callback_state_count
                     callback_state_alive split: if_splits)
  next
    case False
    define a1 where "a1 = clearCallbackState (setCallbackState e shc appData)"
    define q where "q = SSL_write it buf len (p\<lparr>errno := 0\<rparr>)"
    define err where "err = sslError_of it"
    from run False obtain a2 p2 where
      n: "notify_and_count it err a1 q = Some (a2, p2)"
      by (auto simp: sslWrite_body_def handshake_unfinished_def Let_def a1_def q_def err_def
                     sslError_of_def split: option.splits)
    have a1: "waitingThreads a1 = waitingThreads appData"
             "aliveAndKicking a1 = aliveAndKicking appData"
      by (simp_all add: a1_def callback_state_count callback_state_alive)
    from False have q: "pending q = pending p"
      "write_calls (calls q) = write_calls (calls p) @ [Call_SSL_write buf len]"
      by (simp_all add: q_def SSL_write_def write_calls_append write_calls_simps)
    note ne = notify_and_count_effect [OF n] notify_and_count_keeps [OF n]
    show ?thesis
    proof (cases "err = SSL_ERROR_WANT_READ \<or> err = SSL_ERROR_WANT_WRITE")
      case True
      with run False n obtain r where
        sel: "sslSelect (polls it) (token_reads it) err a2 t p2 = Some (r, appData1, p1)"
        and s: "s = after_select r" and b: "buf1 = buf" "len1 = len"
        by (auto simp: sslWrite_body_def handshake_unfinished_def Let_def a1_def q_def err_def
                       sslError_of_def split: option.splits)
      from True have tk: "taken it = 0" by (auto simp: taken_def err_def)
      note se = sslSelect_effect(1,4) [OF sel] sslSelect_keeps [OF sel]
      from ne(1) True have a2: "aliveAndKicking a2 = aliveAndKicking a1" by auto
      from after_wait_count [OF n True sel] a1
      have w: "waitingThreads appData1 = waitingThreads appData" by simp
      from se(2) a2 a1
      have al: "aliveAndKicking appData1 = aliveAndKicking appData \<or> aliveAndKicking appData1 = 0"
        by simp
      have nx: "s = Next \<longrightarrow>
           buf1 = buf + taken it \<and> len1 = len - taken it \<and> pending p1 = pending p
           \<and> write_calls (calls p1) = write_calls (calls p) @ [Call_SSL_write buf len]"
        using s b tk se(3,4) ne(3,5) q after_select_Next [of r] by auto
      have rt: "s = Return c \<longrightarrow>
           c = - 1 \<or> c = THROW_SSLEXCEPTION \<or> c = THROW_SOCKETTIMEOUTEXCEPTION
           \<or> c = THROWN_EXCEPTION"
        using s after_select_Return [of r c] by auto
      from w al nx rt show ?thesis by blast
    next
      case nowait: False
      from ne(1) nowait have a2: "a2 = a1" by simp
      from run False n nowait
      have "appData1 = a2 \<and> p1 = p2
          \<and> (s = Next \<longrightarrow> buf1 = buf + taken it \<and> len1 = len - taken it)
          \<and> (s = Return c \<longrightarrow>
           c = - 1 \<or> c = THROW_SSLEXCEPTION \<or> c = THROW_SOCKETTIMEOUTEXCEPTION
           \<or> c = THROWN_EXCEPTION)"
        by (cases err)
           (auto simp: sslWrite_body_def handshake_unfinished_def Let_def a1_def q_def err_def
                       sslError_of_def taken_def split: option.splits if_splits)
      with a2 a1 ne(3,5) q show ?thesis by auto
    qed
  qed
  then show "waitingThreads appData1 = waitingThreads appData"
    and "aliveAndKicking appData1 = aliveAndKicking appData \<or> aliveAndKicking appData1 = 0"
    and "s = Next \<Longrightarrow>
           buf1 = buf + taken it \<and> len1 = len - taken it \<and> pending p1 = pending p
           \<and> write_calls (calls p1) = write_calls (calls p) @ [Call_SSL_write buf len]"
    and "s = Return c \<Longrightarrow>
           c = - 1 \<or> c = THROW_SSLEXCEPTION \<or> c = THROW_SOCKETTIMEOUTEXCEPTION
           \<or> c = THROWN_EXCEPTION"
    by blast+
qed

lemma return_codes_negative:
  "c = - 1 \<or> c = THROW_SSLEXCEPTION \<or> c = THROW_SOCKETTIMEOUTEXCEPTION \<or> c = THROWN_EXCEPTION
   \<Longrightarrow> c < (0::int)"
  by (auto simp: THROW_SSLEXCEPTION_def THROW_SOCKETTIMEOUTEXCEPTION_def THROWN_EXCEPTION_def)

lemma sslWrite_loop_steps:
  "sslWrite_loop its e shc buf len count err0 t appData p = Some (count, err1, appData1, p1) \<Longrightarrow>
   0 < count \<Longrightarrow> aliveAndKicking appData1 \<noteq> 0 \<Longrightarrow>
   write_calls (calls p1) = write_calls (calls p) @ spec_write_steps buf len (map taken its)
   \<and> pending p1 = pending p
   \<and> len \<le> spec_confirmed len (map taken its)
   \<and> (0 \<le> len \<and> within_offer len (map taken its) \<longrightarrow> spec_confirmed len (map taken its) = len)"
proof (induction its arbitrary: buf len err0 appData p)
  case Nil
  then show ?case by (auto split: if_splits)
next
  case (Cons it its)
  show ?case
  proof (cases "interrupt_first it")
    case True
    then have "aliveAndKicking (fst (interrupted_by_other_thread appData p)) = 0"
      by (simp add: interrupted_by_other_thread_def)
    with True Cons.prems(1) have "aliveAndKicking appData1 = 0"
      by (auto simp: interrupted_by_other_thread_def)
    with Cons.prems(3) show ?thesis by simp
  next
    case ni: False
    show ?thesis
    proof (cases "aliveAndKicking appData \<noteq> 0 \<and> 0 < len")
      case False
      with ni Cons.prems(1) have "appData1 = appData" "p1 = p" by auto
      with False Cons.prems(3) have "\<not> 0 < len" by simp
      with \<open>p1 = p\<close> show ?thesis by simp
    next
      case True
      with ni Cons.prems(1) obtain s e2 buf2 len2 a2 p2 where
        body: "sslWrite_body it e shc buf len err0 t appData p = Some (s, e2, buf2, len2, a2, p2)"
        by (auto split: option.splits)
      note eff = sslWrite_body_effect [OF body]
      show ?thesis
      proof (cases s)
        case (Return c)
        with ni True body Cons.prems(1) have "c = count" by simp
        with eff(4) [OF Return] return_codes_negative [of c] Cons.prems(2) show ?thesis
          by simp
      next
        case Next
        with ni True body Cons.prems(1)
        have rec: "sslWrite_loop its e shc buf2 len2 count e2 t a2 p2
                     = Some (count, err1, appData1, p1)"
          by simp
        note ih = Cons.IH [OF rec Cons.prems(2,3)]
        from eff(3) [OF Next] have b: "buf2 = buf + taken it" "len2 = len - taken it"
          "pending p2 = pending p"
          "write_calls (calls p2) = write_calls (calls p) @ [Call_SSL_write buf len]"
          by simp_all
        from ih b True show ?thesis by auto
      qed
    qed
  qed
qed

lemma notify_and_count_returns:
  assumes "wake_returns (notify_writes it)"
  shows "\<exists>p2. notify_and_count it err appData p =
           Some (if err = SSL_ERROR_WANT_READ \<or> err = SSL_ERROR_WANT_WRITE
                 then appData\<lparr>waitingThreads := waitingThreads appData + 1\<rparr> else appData, p2)
         \<and> errno p2 = errno p \<and> pending p2 = pending p
         \<and> write_calls (calls p2) = write_calls (calls p)"
proof (cases "bytes_moved it \<and> 0 < waitingThreads appData")
  case True
  have "write_calls (calls p @ replicate (attempts (notify_writes it)) Call_write)
          = write_calls (calls p)"
    by (simp add: write_calls_def)
  with True sslNotify_wake [OF assms, of p] show ?thesis
    by (simp add: notify_and_count_def)
next
  case False
  then show ?thesis by (auto simp: notify_and_count_def)
qed

lemma sslWrite_body_accepts:
  assumes acc: "accepts_chunk it"
  shows "\<exists>appData1 p1.
           sslWrite_body it e shc buf len err0 t appData p
             = Some (Next, SSL_ERROR_NONE, buf + ssl_result it, len - ssl_result it, appData1, p1)
           \<and> aliveAndKicking appData1 = aliveAndKicking appData"
proof -
  define a1 where "a1 = clearCallbackState (setCallbackState e shc appData)"
  define q where "q = SSL_write it buf len (p\<lparr>errno := 0\<rparr>)"
  from acc have r: "reaches_switch it" and pos: "0 < ssl_result it"
    by (simp_all add: accepts_chunk_def)
  from r have w: "wake_returns (notify_writes it)" by (simp add: reaches_switch_def)
  from pos have err: "OpenSslError_reset (ssl_result it) (get_error it) = SSL_ERROR_NONE"
    by (simp add: OpenSslError_reset_def)
  from notify_and_count_returns [OF w, of SSL_ERROR_NONE a1 q] obtain p2 where
    n: "notify_and_count it SSL_ERROR_NONE a1 q = Some (a1, p2)" by auto
  have a1: "aliveAndKicking a1 = aliveAndKicking appData"
    by (simp add: a1_def callback_state_alive)
  from r err n
  have "sslWrite_body it e shc buf len err0 t appData p
          = Some (Next, SSL_ERROR_NONE, buf + ssl_result it, len - ssl_result it, a1, p2)"
    by (simp add: sslWrite_body_def reaches_switch_def handshake_unfinished_def Let_def
                  a1_def q_def)
  with a1 show ?thesis by simp
qed

lemma chunks_sum_nonneg:
  "\<forall>it\<in>set its. accepts_chunk it \<Longrightarrow> 0 \<le> sum_list (map ssl_result its)"
  by (induction its) (auto simp: accepts_chunk_def)

lemma sslWrite_loop_chunks:
  "\<forall>it\<in>set its. accepts_chunk it \<Longrightarrow> sum_list (map ssl_result its) = len \<Longrightarrow>
   aliveAndKicking appData \<noteq> 0 \<Longrightarrow>
   \<exists>err1 appData1 p1.
     sslWrite_loop its e shc buf len count err0 t appData p = Some (count, err1, appData1, p1)
     \<and> aliveAndKicking appData1 \<noteq> 0"
proof (induction its arbitrary: buf len err0 appData p)
  case Nil
  then show ?case by simp
next
  case (Cons it its)
  from Cons.prems have acc: "accepts_chunk it" and rest: "\<forall>it\<in>set its. accepts_chunk it"
    by simp_all
  from acc have ni: "\<not> interrupt_first it" and pos: "0 < ssl_result it"
    by (simp_all add: accepts_chunk_def reaches_switch_def)
  from chunks_sum_nonneg [OF rest] Cons.prems(2) pos have len: "0 < len" by simp
  from sslWrite_body_accepts [OF acc, of e shc buf len err0 t appData p] obtain a1 p1 where
    body: "sslWrite_body it e shc buf len err0 t appData p
             = Some (Next, SSL_ERROR_NONE, buf + ssl_result it, len - ssl_result it, a1, p1)"
    and a1: "aliveAndKicking a1 = aliveAndKicking appData"
    by blast
  from Cons.prems(2) have sum: "sum_list (map ssl_result its) = len - ssl_result it" by simp
  from a1 Cons.prems(3) have alive: "aliveAndKicking a1 \<noteq> 0" by simp
  from Cons.IH [OF rest sum alive, of "buf + ssl_result it" SSL_ERROR_NONE p1]
  obtain e2 a2 p2 where
    rec: "sslWrite_loop its e shc (buf + ssl_result it) (len - ssl_result it) count
            SSL_ERROR_NONE t a1 p1 = Some (count, e2, a2, p2)"
    and a2: "aliveAndKicking a2 \<noteq> 0"
    by blast
  from ni Cons.prems(3) len body rec
  have "sslWrite_loop (it # its) e shc buf len count err0 t appData p = Some (count, e2, a2, p2)"
    by simp
  with a2 show ?case by simp
qed

lemma sslRead_body_count:
  assumes "sslRead_body it e shc buf len err0 t appData p = Some (s, err1, appData1, p1)"
  shows "waitingThreads appData1 = waitingThreads appData"
proof (cases "handshake_unfinished it \<or> fd_closed it \<or> exception_thrown it")
  case True
  with assms show ?thesis
    by (auto simp: sslRead_body_def handshake_unfinished_def Let_def callback_state_count
             split: if_splits)
next
  case False
  define a1 where "a1 = clearCallbackState (setCallbackState e shc appData)"
  define q where "q = SSL_read it buf len (p\<lparr>errno := 0\<rparr>)"
  define err where "err = OpenSslError_reset (ssl_result it) (get_error it)"
  from assms False obtain a2 p2 where
    n: "notify_and_count it err a1 q = Some (a2, p2)"
    by (auto simp: sslRead_body_def handshake_unfinished_def Let_def a1_def q_def err_def
             split: option.splits)
  have a1: "waitingThreads a1 = waitingThreads appData"
    by (simp add: a1_def callback_state_count)
  show ?thesis
  proof (cases "err = SSL_ERROR_WANT_READ \<or> err = SSL_ERROR_WANT_WRITE")
    case True
    with assms False n obtain r where
      "sslSelect (polls it) (token_reads it) err a2 t p2 = Some (r, appData1, p1)"
      by (auto simp: sslRead_body_def handshake_unfinished_def Let_def a1_def q_def err_def
               split: option.splits)
    from after_wait_count [OF n True this] a1 show ?thesis by simp
  next
    case nowait: False
    with assms False n have "appData1 = a2"
      by (cases err)
         (auto simp: sslRead_body_def handshake_unfinished_def Let_def a1_def q_def err_def
               split: option.splits if_splits)
    with notify_and_count_effect(1) [OF n] nowait a1 show ?thesis by simp
  qed
qed

text \<open>
  C9. A call of \<open>sslSelect\<close> that returns has decremented \<open>waitingThreads\<close> by one, whatever
  it returns; called right after an increment, as the handshake, read and write loops do,
  it returns with the counter at its value before the increment. A pass through the body
  of the read loop or of the write loop leaves \<open>waitingThreads\<close> as it found it: the
  increment before a wait is undone by the wait.
\<close>

theorem sslSelect_decrements_waitingThreads_once:
  "(sslSelect pos reads type appData t p = Some (r, appData1, p1) \<longrightarrow>
      waitingThreads appData1 = waitingThreads appData - 1)
   \<and> (sslSelect pos reads type (appData\<lparr>waitingThreads := waitingThreads appData + 1\<rparr>) t p
        = Some (r, appData4, p4) \<longrightarrow>
      waitingThreads appData4 = waitingThreads appData)
   \<and> (sslRead_body it e shc buf len sslError t appData p = Some (s, sslError2, appData2, p2) \<longrightarrow>
      waitingThreads appData2 = waitingThreads appData)
   \<and> (sslWrite_body it e shc buf len sslError t appData p
        = Some (s, sslError3, buf3, len3, appData3, p3) \<longrightarrow>
      waitingThreads appData3 = waitingThreads appData)"
proof (intro conjI impI)
  assume "sslSelect pos reads type appData t p = Some (r, appData1, p1)"
  then show "waitingThreads appData1 = waitingThreads appData - 1"
    by (rule sslSelect_effect(1))
next
  assume "sslSelect pos reads type (appData\<lparr>waitingThreads := waitingThreads appData + 1\<rparr>) t p
        = Some (r, appData4, p4)"
  from sslSelect_effect(1) [OF this]
  show "waitingThreads appData4 = waitingThreads appData" by simp
next
  assume "sslRead_body it e shc buf len sslError t appData p = Some (s, sslError2, appData2, p2)"
  then show "waitingThreads appData2 = waitingThreads appData"
    by (rule sslRead_body_count)
next
  assume "sslWrite_body it e shc buf len sslError t appData p
        = Some (s, sslError3, buf3, len3, appData3, p3)"
  then show "waitingThreads appData3 = waitingThreads appData"
    by (rule sslWrite_body_effect(1))
qed

theorem sslSelect_decrements_waitingThreads_once_witness:
  "sslSelect [ex_round\<lparr>arrived := 1, revents_POLLIN := True\<rparr>] [False]
       SSL_ERROR_WANT_READ ex_appData 0 ex_proc
     = Some (1, ex_appData\<lparr>waitingThreads := 0\<rparr>,
             ex_proc\<lparr>calls := [Call_poll POLLIN_POLLPRI (- 1), Call_read]\<rparr>)
   \<and> sslSelect [ex_round\<lparr>arrived := 1, revents_POLLIN := True\<rparr>] [False]
       SSL_ERROR_WANT_READ (ex_appData\<lparr>waitingThreads := waitingThreads ex_appData + 1\<rparr>)
       0 ex_proc
     = Some (1, ex_appData,
             ex_proc\<lparr>calls := [Call_poll POLLIN_POLLPRI (- 1), Call_read]\<rparr>)
   \<and> sslSelect [ex_round\<lparr>poll_result := 0\<rparr>] [] SSL_ERROR_WANT_READ ex_appData 0 ex_proc
     = Some (0, ex_appData\<lparr>waitingThreads := 0\<rparr>,
             ex_proc\<lparr>calls := [Call_poll POLLIN_POLLPRI (- 1)]\<rparr>)
   \<and> sslSelect [ex_round\<lparr>poll_result := - 1, poll_errno := 9\<rparr>] []
       SSL_ERROR_WANT_READ ex_appData 0 ex_proc
     = Some (- 1, ex_appData\<lparr>waitingThreads := 0\<rparr>,
             ex_proc\<lparr>errno := 9, calls := [Call_poll POLLIN_POLLPRI (- 1)]\<rparr>)
   \<and> sslSelect [ex_round\<lparr>closed_before := True\<rparr>] [] SSL_ERROR_WANT_READ ex_appData 0 ex_proc
     = Some (THROWN_EXCEPTION, ex_appData\<lparr>waitingThreads := 0\<rparr>,
             ex_proc\<lparr>pending := Some SocketException\<rparr>)
   \<and> sslRead_body (ex_pass\<lparr>ssl_result := - 1, get_error := SSL_ERROR_WANT_READ\<rparr>)
         1 2 0 5 SSL_ERROR_NONE 0 ex_appData ex_proc
     = Some (Next, SSL_ERROR_WANT_READ, ex_appData,
             ex_proc\<lparr>errno := 0,
                     calls := [Call_SSL_read 0 5, Call_write, Call_poll POLLIN_POLLPRI (- 1)],
                     pipe := 1\<rparr>)
   \<and> sslWrite_body (ex_pass\<lparr>ssl_result := - 1, get_error := SSL_ERROR_WANT_WRITE\<rparr>)
         1 2 0 5 SSL_ERROR_NONE 0 ex_appData ex_proc
     = Some (Next, SSL_ERROR_WANT_WRITE, 0, 5, ex_appData,
             ex_proc\<lparr>errno := 0,
                     calls := [Call_SSL_write 0 5, Call_write, Call_poll POLLOUT_POLLPRI (- 1)],
                     pipe := 1\<rparr>)
   \<and> waitingThreads (ex_appData\<lparr>waitingThreads := 0\<rparr>) = waitingThreads ex_appData - 1"
  using sslSelect_decrements_waitingThreads_once
     [where pos = "[ex_round\<lparr>arrived := 1, revents_POLLIN := True\<rparr>]" and reads = "[False]"
        and type = SSL_ERROR_WANT_READ and appData = ex_appData and t = 0 and p = ex_proc
        and r = 1 and ?appData1.0 = "ex_appData\<lparr>waitingThreads := 0\<rparr>"
        and ?p1.0 = "ex_proc\<lparr>calls := [Call_poll POLLIN_POLLPRI (- 1), Call_read]\<rparr>"
        and ?appData4.0 = ex_appData
        and ?p4.0 = "ex_proc\<lparr>calls := [Call_poll POLLIN_POLLPRI (- 1), Call_read]\<rparr>"
        and it = "ex_pass\<lparr>ssl_result := - 1, get_error := SSL_ERROR_WANT_READ\<rparr>"
        and e = 1 and shc = 2 and buf = 0 and len = 5 and sslError = SSL_ERROR_NONE and s = Next
        and ?sslError2.0 = SSL_ERROR_WANT_READ and ?appData2.0 = ex_appData
        and ?p2.0 = "ex_proc\<lparr>errno := 0,
                 calls := [Call_SSL_read 0 5, Call_write, Call_poll POLLIN_POLLPRI (- 1)],
                 pipe := 1\<rparr>"
        and ?sslError3.0 = SSL_ERROR_WANT_WRITE
        and ?buf3.0 = 0 and ?len3.0 = 5 and ?appData3.0 = ex_appData
        and ?p3.0 = "ex_proc\<lparr>errno := 0,
                 calls := [Call_SSL_write 0 5, Call_write, Call_poll POLLOUT_POLLPRI (- 1)],
                 pipe := 1\<rparr>"]
  by (simp add: ex_defs run_defs)

subsection \<open>NativeCrypto\_SSL\_interrupt\<close>

lemma NativeCrypto_SSL_interrupt_effect:
  assumes "wake_returns outs1" and "wake_returns outs2"
  shows "NativeCrypto_SSL_interrupt outs1 outs2 (Some (Some appData)) p =
           Some (Some (Some (appData\<lparr>aliveAndKicking := 0\<rparr>)),
                 p\<lparr>pipe := pipe p + delivered outs1 + delivered outs2,
                   calls := calls p @ replicate (attempts outs1 + attempts outs2) Call_write\<rparr>)"
  using assms
  by (simp add: NativeCrypto_SSL_interrupt_def sslNotify_wake replicate_add)

lemma interrupt_calls_effect:
  "wakes_return ws \<Longrightarrow>
   \<exists>p1. interrupt_calls ws (Some (Some appData)) p =
           Some (Some (Some (if ws = [] then appData else appData\<lparr>aliveAndKicking := 0\<rparr>)), p1)
        \<and> errno p1 = errno p \<and> pending p1 = pending p \<and> pipe p1 = pipe p + wake_bytes ws"
proof (induction ws arbitrary: appData p)
  case Nil
  then show ?case by simp
next
  case (Cons w ws)
  obtain outs1 outs2 where w: "w = (outs1, outs2)" by (cases w)
  with Cons.prems have r: "wake_returns outs1" "wake_returns outs2" "wakes_return ws"
    by simp_all
  define q where "q = p\<lparr>pipe := pipe p + delivered outs1 + delivered outs2,
                   calls := calls p @ replicate (attempts outs1 + attempts outs2) Call_write\<rparr>"
  from Cons.IH [OF r(3), of "appData\<lparr>aliveAndKicking := 0\<rparr>" q] obtain p1 where
    rec: "interrupt_calls ws (Some (Some (appData\<lparr>aliveAndKicking := 0\<rparr>))) q =
            Some (Some (Some (appData\<lparr>aliveAndKicking := 0\<rparr>)), p1)"
    and p1: "errno p1 = errno q" "pending p1 = pending q" "pipe p1 = pipe q + wake_bytes ws"
    by (auto split: if_splits)
  from NativeCrypto_SSL_interrupt_effect [OF r(1,2), of appData p] rec w
  have "interrupt_calls (w # ws) (Some (Some appData)) p =
          Some (Some (Some (appData\<lparr>aliveAndKicking := 0\<rparr>)), p1)"
    by (simp add: q_def)
  with p1 w show ?case by (simp add: q_def)
qed

lemma interrupt_calls_no_ssl: "interrupt_calls ws None p = Some (None, p)"
  by (induction ws) (auto simp: NativeCrypto_SSL_interrupt_def)

lemma interrupt_calls_no_appData: "interrupt_calls ws (Some None) p = Some (Some None, p)"
  by (induction ws) (auto simp: NativeCrypto_SSL_interrupt_def)

text \<open>
  C3, as the code has it. One call clears the flag and runs \<open>sslNotify\<close> twice; it returns
  when each of the two has a write that is not interrupted. Calls in sequence leave
  \<open>AppData\<close>, errno and the pending exception as one call leaves them, and each adds to the
  self-pipe one byte for each of its two wake-ups whose write succeeds. Without an \<open>SSL\<close>
  or without application data a call changes nothing.
\<close>

theorem NativeCrypto_SSL_interrupt_repeated:
  "interrupt_calls ws None p = Some (None, p)
   \<and> interrupt_calls ws (Some None) p = Some (Some None, p)
   \<and> (wake_returns outs1 \<and> wake_returns outs2 \<longrightarrow>
        NativeCrypto_SSL_interrupt outs1 outs2 (Some (Some appData)) p =
          Some (Some (Some (appData\<lparr>aliveAndKicking := 0\<rparr>)),
                p\<lparr>pipe := pipe p + delivered outs1 + delivered outs2,
                  calls := calls p @ replicate (attempts outs1 + attempts outs2) Call_write\<rparr>))
   \<and> (wakes_return ws \<and> ws \<noteq> [] \<longrightarrow>
        (\<exists>p1. interrupt_calls ws (Some (Some appData)) p =
                 Some (Some (Some (appData\<lparr>aliveAndKicking := 0\<rparr>)), p1)
              \<and> errno p1 = errno p \<and> pending p1 = pending p
              \<and> pipe p1 = pipe p + wake_bytes ws))"
proof (intro conjI impI)
  show "interrupt_calls ws None p = Some (None, p)" by (rule interrupt_calls_no_ssl)
  show "interrupt_calls ws (Some None) p = Some (Some None, p)"
    by (rule interrupt_calls_no_appData)
next
  assume "wake_returns outs1 \<and> wake_returns outs2"
  then show "NativeCrypto_SSL_interrupt outs1 outs2 (Some (Some appData)) p =
          Some (Some (Some (appData\<lparr>aliveAndKicking := 0\<rparr>)),
                p\<lparr>pipe := pipe p + delivered outs1 + delivered outs2,
                  calls := calls p @ replicate (attempts outs1 + attempts outs2) Call_write\<rparr>)"
    by (simp add: NativeCrypto_SSL_interrupt_effect)
next
  assume "wakes_return ws \<and> ws \<noteq> []"
  with interrupt_calls_effect [of ws appData p]
  show "\<exists>p1. interrupt_calls ws (Some (Some appData)) p =
                 Some (Some (Some (appData\<lparr>aliveAndKicking := 0\<rparr>)), p1)
              \<and> errno p1 = errno p \<and> pending p1 = pending p
              \<and> pipe p1 = pipe p + wake_bytes ws"
    by auto
qed

theorem NativeCrypto_SSL_interrupt_repeated_witness:
  "wake_returns [WriteFailed EINTR, Written] \<and> wake_returns [Written]
   \<and> NativeCrypto_SSL_interrupt [WriteFailed EINTR, Written] [Written]
        (Some (Some ex_appData)) ex_proc
       = Some (Some (Some (ex_appData\<lparr>aliveAndKicking := 0\<rparr>)),
               ex_proc\<lparr>pipe := 2, calls := [Call_write, Call_write, Call_write]\<rparr>)
   \<and> wakes_return [([Written], [Written]), ([Written], [Written]), ([Written], [Written])]
   \<and> interrupt_calls [([Written], [Written]), ([Written], [Written]), ([Written], [Written])]
        (Some (Some ex_appData)) ex_proc
       = Some (Some (Some (ex_appData\<lparr>aliveAndKicking := 0\<rparr>)),
               ex_proc\<lparr>pipe := 6,
                       calls := [Call_write, Call_write, Call_write, Call_write, Call_write,
                                 Call_write]\<rparr>)"
  using NativeCrypto_SSL_interrupt_repeated
          [of "[([Written], [Written]), ([Written], [Written]), ([Written], [Written])]"
              ex_proc "[WriteFailed EINTR, Written]" "[Written]" ex_appData]
  by (simp add: ex_defs wake_returns_def delivered_def attempts_def EINTR_def
                NativeCrypto_SSL_interrupt_def sslNotify_def pipe_write_def)

text \<open>
  The claim C3 fails: two calls leave four bytes in the self-pipe, one call leaves two, so
  the state after two calls is not the state after one.
\<close>

theorem NativeCrypto_SSL_interrupt_twice_differs:
  "interrupt_calls [([Written], [Written]), ([Written], [Written])] (Some (Some ex_appData)) ex_proc
     = Some (Some (Some (ex_appData\<lparr>aliveAndKicking := 0\<rparr>)),
             ex_proc\<lparr>pipe := 4, calls := [Call_write, Call_write, Call_write, Call_write]\<rparr>)
   \<and> interrupt_calls [([Written], [Written])] (Some (Some ex_appData)) ex_proc
     = Some (Some (Some (ex_appData\<lparr>aliveAndKicking := 0\<rparr>)),
             ex_proc\<lparr>pipe := 2, calls := [Call_write, Call_write]\<rparr>)
   \<and> interrupt_calls [([Written], [Written]), ([Written], [Written])] (Some (Some ex_appData)) ex_proc
     \<noteq> interrupt_calls [([Written], [Written])] (Some (Some ex_appData)) ex_proc"
  by (simp add: ex_defs NativeCrypto_SSL_interrupt_def sslNotify_def pipe_write_def EINTR_def)

subsection \<open>sslRead, sslWrite and the JNI entry points\<close>

lemma sslRead_len_zero: "sslRead its e ssl shc buf 0 sslError t p = Some (0, sslError, ssl, p)"
  by (simp add: sslRead_def)

lemma sslWrite_len_zero: "sslWrite its e ssl shc buf 0 sslError t p = Some (0, sslError, ssl, p)"
  by (simp add: sslWrite_def)

text \<open>
  C7. With length 0, \<open>sslRead\<close> and \<open>sslWrite\<close> return 0 and leave the connection, the
  error code of the caller and the thread as they were, whatever the script and whether
  or not application data is attached: no engine call, no poll, no pipe access is
  recorded. The JNI entry points, given non-null arguments, return at once as well, with
  nothing thrown.
\<close>

theorem zero_length_returns_at_once:
  "sslRead its e ssl shc buf 0 sslError t p = Some (0, sslError, ssl, p)
   \<and> sslWrite its e ssl shc buf 0 sslError t p = Some (0, sslError, ssl, p)
   \<and> NativeCrypto_SSL_read its asprintf_ok e (Some ssl) (Some fd) (Some shc) (Some b) offset 0 t p
       = Some (0, Some ssl, p)
   \<and> NativeCrypto_SSL_write its asprintf_ok e (Some ssl) (Some fd) (Some shc) (Some b) offset 0 t p
       = Some (Some ssl, p)"
  by (simp add: sslRead_len_zero sslWrite_len_zero NativeCrypto_SSL_read_def
                NativeCrypto_SSL_write_def THROW_SSLEXCEPTION_def
                THROW_SOCKETTIMEOUTEXCEPTION_def THROWN_EXCEPTION_def)

theorem zero_length_returns_at_once_witness:
  "sslRead [ex_pass] 1 (Some ex_appData) 2 0 0 SSL_ERROR_NONE 0 ex_proc
     = Some (0, SSL_ERROR_NONE, Some ex_appData, ex_proc)
   \<and> sslWrite [ex_pass] 1 (Some ex_appData) 2 0 0 SSL_ERROR_NONE 0 ex_proc
     = Some (0, SSL_ERROR_NONE, Some ex_appData, ex_proc)
   \<and> sslRead [] 1 None 2 0 0 SSL_ERROR_NONE 0 ex_proc = Some (0, SSL_ERROR_NONE, None, ex_proc)
   \<and> NativeCrypto_SSL_read [ex_pass] True 1 (Some (Some ex_appData)) (Some 3) (Some 2) (Some 0)
        0 0 0 ex_proc
     = Some (0, Some (Some ex_appData), ex_proc)
   \<and> NativeCrypto_SSL_write [ex_pass] True 1 (Some (Some ex_appData)) (Some 3) (Some 2) (Some 0)
        0 0 0 ex_proc
     = Some (Some (Some ex_appData), ex_proc)"
  using zero_length_returns_at_once
          [where its = "[ex_pass]" and e = 1 and ssl = "Some ex_appData" and shc = 2 and buf = 0
             and sslError = SSL_ERROR_NONE and t = 0 and p = ex_proc and asprintf_ok = True
             and fd = 3 and b = 0 and offset = 0]
        zero_length_returns_at_once
          [where its = "[]" and e = 1 and ssl = None and shc = 2 and buf = 0
             and sslError = SSL_ERROR_NONE and t = 0 and p = ex_proc and asprintf_ok = True
             and fd = 3 and b = 0 and offset = 0]
  by simp

text \<open>Loop exit on a cleared flag.\<close>

lemma sslRead_loop_exit:
  "aliveAndKicking appData = 0 \<or> interrupt_first it \<Longrightarrow>
   sslRead_loop (it # its) e shc buf len sslError t appData p =
     Some (- 1, sslError, if interrupt_first it then interrupted_by_other_thread appData p
                          else (appData, p))"
  by (auto simp: interrupted_by_other_thread_def)

lemma sslWrite_loop_exit:
  "aliveAndKicking appData = 0 \<or> interrupt_first it \<Longrightarrow>
   sslWrite_loop (it # its) e shc buf len count sslError t appData p =
     Some (count, sslError, if interrupt_first it then interrupted_by_other_thread appData p
                            else (appData, p))"
  by (auto simp: interrupted_by_other_thread_def)

text \<open>The switch of the JNI entry points on the value of \<open>sslRead\<close> and \<open>sslWrite\<close>.\<close>

lemma NativeCrypto_SSL_read_of_sslRead:
  "sslRead its e ssl shc (b + offset) len SSL_ERROR_NONE t p = Some (ret, sslError, ssl1, p1) \<Longrightarrow>
   NativeCrypto_SSL_read its asprintf_ok e (Some ssl) (Some fd) (Some shc) (Some b) offset len t p =
     (if ret = THROW_SSLEXCEPTION
      then Some (- 1, Some ssl1,
                 throwSSLExceptionWithSslErrors asprintf_ok sslError ''Read error'' p1)
      else if ret = THROW_SOCKETTIMEOUTEXCEPTION
      then Some (- 1, Some ssl1, throw (SocketTimeoutException ''Read timed out'') p1)
      else if ret = THROWN_EXCEPTION then Some (- 1, Some ssl1, p1)
      else Some (ret, Some ssl1, p1))"
  by (simp add: NativeCrypto_SSL_read_def)

lemma NativeCrypto_SSL_write_of_sslWrite:
  "sslWrite its e ssl shc (b + offset) len SSL_ERROR_NONE t p = Some (ret, sslError, ssl1, p1) \<Longrightarrow>
   NativeCrypto_SSL_write its asprintf_ok e (Some ssl) (Some fd) (Some shc) (Some b) offset len t p =
     (if ret = THROW_SSLEXCEPTION
      then Some (Some ssl1,
                 throwSSLExceptionWithSslErrors asprintf_ok sslError ''Write error'' p1)
      else if ret = THROW_SOCKETTIMEOUTEXCEPTION
      then Some (Some ssl1, throw (SocketTimeoutException ''Write timed out'') p1)
      else Some (Some ssl1, p1))"
  by (simp add: NativeCrypto_SSL_write_def)

lemma throwSSLExceptionWithSslErrors_class:
  "throwSSLExceptionWithSslErrors asprintf_ok sslError message p =
     p\<lparr>pending := Some (if asprintf_ok \<and> sslError = SSL_ERROR_SSL
                         then SSLProtocolException message else SSLException message)\<rparr>"
  by (simp add: throwSSLExceptionWithSslErrors_def throw_def)





lemma sslRead_body_unfinished:
  "handshake_unfinished it \<Longrightarrow>
   sslRead_body it e shc buf len sslError t appData p
     = Some (Return THROW_SSLEXCEPTION, sslError, appData, p\<lparr>errno := 0\<rparr>)"
  by (simp add: sslRead_body_def handshake_unfinished_def)

lemma sslWrite_body_unfinished:
  "handshake_unfinished it \<Longrightarrow>
   sslWrite_body it e shc buf len sslError t appData p
     = Some (Return THROW_SSLEXCEPTION, sslError, buf, len, appData, p\<lparr>errno := 0\<rparr>)"
  by (simp add: sslWrite_body_def handshake_unfinished_def)

subsection \<open>Partial writes\<close>

text \<open>
  C4, as the code has it. A write of positive length that returns that length with
  \<open>aliveAndKicking\<close> still set has called the engine pass after pass while bytes remained,
  each time at the buffer position behind the bytes confirmed so far and for the bytes
  that remained: the same step again after a pass that only waited for the socket or was
  interrupted in a system call, the rest of the buffer after a pass in which the engine
  took bytes. Nothing has been thrown. The bytes confirmed are at least the length, and
  exactly the length when the engine never confirms more than it is offered. When every
  pass of the script accepts a positive chunk and the chunks add up to the length, the
  write does return that length with the flag set. (A write whose loop is left because the
  flag was cleared returns the length as well, whatever was sent: see the counterexample.)
\<close>

theorem sslWrite_reissues_remaining_suffix:
  "(sslWrite its e (Some appData) shc buf len sslError t p
        = Some (len, sslError1, Some appData1, p1)
      \<and> 0 < len \<and> aliveAndKicking appData1 \<noteq> 0 \<longrightarrow>
      write_calls (calls p1) = write_calls (calls p) @ spec_write_steps buf len (map taken its)
      \<and> pending p1 = pending p
      \<and> len \<le> spec_confirmed len (map taken its)
      \<and> (within_offer len (map taken its) \<longrightarrow> spec_confirmed len (map taken its) = len))
   \<and> ((\<forall>it\<in>set chunks. accepts_chunk it) \<and> sum_list (map ssl_result chunks) = len
        \<and> aliveAndKicking appData \<noteq> 0 \<longrightarrow>
      (\<exists>sslError2 appData2 p2.
         sslWrite chunks e (Some appData) shc buf len sslError t p
           = Some (len, sslError2, Some appData2, p2)
         \<and> aliveAndKicking appData2 \<noteq> 0))"
proof (intro conjI impI)
  assume h: "sslWrite its e (Some appData) shc buf len sslError t p
        = Some (len, sslError1, Some appData1, p1)
      \<and> 0 < len \<and> aliveAndKicking appData1 \<noteq> 0"
  then have l: "sslWrite_loop its e shc buf len len sslError t appData p
                  = Some (len, sslError1, appData1, p1)"
    by (auto simp: sslWrite_def split: option.splits)
  from h have pos: "0 < len" and al: "aliveAndKicking appData1 \<noteq> 0" by simp_all
  note st = sslWrite_loop_steps [OF l pos al]
  from st show "write_calls (calls p1)
      = write_calls (calls p) @ spec_write_steps buf len (map taken its)" by simp
  from st show "pending p1 = pending p" by simp
  from st show "len \<le> spec_confirmed len (map taken its)" by simp
  assume "within_offer len (map taken its)"
  with st pos show "spec_confirmed len (map taken its) = len" by simp
next
  assume h: "(\<forall>it\<in>set chunks. accepts_chunk it) \<and> sum_list (map ssl_result chunks) = len
        \<and> aliveAndKicking appData \<noteq> 0"
  show "\<exists>sslError2 appData2 p2.
         sslWrite chunks e (Some appData) shc buf len sslError t p
           = Some (len, sslError2, Some appData2, p2)
         \<and> aliveAndKicking appData2 \<noteq> 0"
  proof (cases "len = 0")
    case True
    with h show ?thesis by (simp add: sslWrite_def)
  next
    case False
    from h have a: "\<forall>it\<in>set chunks. accepts_chunk it"
      and b: "sum_list (map ssl_result chunks) = len" and c: "aliveAndKicking appData \<noteq> 0"
      by simp_all
    from sslWrite_loop_chunks [OF a b c, of e shc buf len sslError t p] False show ?thesis
      by (auto simp: sslWrite_def)
  qed
qed

theorem sslWrite_reissues_remaining_suffix_witness:
  "sslWrite
     [ex_pass,
      ex_pass\<lparr>ssl_result := - 1, get_error := SSL_ERROR_WANT_WRITE, bytes_moved := False\<rparr>,
      ex_pass\<lparr>ssl_result := - 1, get_error := SSL_ERROR_SYSCALL, engine_errno := EINTR,
              bytes_moved := False\<rparr>,
      ex_pass\<lparr>ssl_result := 3\<rparr>]
     1 (Some ex_appData) 2 100 5 SSL_ERROR_NONE 0 ex_proc
     = Some (5, SSL_ERROR_NONE, Some ex_appData,
             ex_proc\<lparr>errno := 0, pipe := 2,
                     calls := [Call_SSL_write 100 5, Call_write, Call_SSL_write 102 3,
                               Call_poll POLLOUT_POLLPRI (- 1), Call_SSL_write 102 3,
                               Call_SSL_write 102 3, Call_write]\<rparr>)
   \<and> (0::int) < 5 \<and> aliveAndKicking ex_appData \<noteq> 0
   \<and> map taken
        [ex_pass,
         ex_pass\<lparr>ssl_result := - 1, get_error := SSL_ERROR_WANT_WRITE, bytes_moved := False\<rparr>,
         ex_pass\<lparr>ssl_result := - 1, get_error := SSL_ERROR_SYSCALL, engine_errno := EINTR,
                 bytes_moved := False\<rparr>,
         ex_pass\<lparr>ssl_result := 3\<rparr>] = [2, 0, 0, 3]
   \<and> within_offer 5 [2, 0, 0, 3]
   \<and> spec_write_steps 100 5 [2, 0, 0, 3]
       = [Call_SSL_write 100 5, Call_SSL_write 102 3, Call_SSL_write 102 3,
          Call_SSL_write 102 3]
   \<and> spec_confirmed 5 [2, 0, 0, 3] = 5
   \<and> accepts_chunk ex_pass \<and> accepts_chunk (ex_pass\<lparr>ssl_result := 3\<rparr>)
   \<and> sum_list (map ssl_result [ex_pass, ex_pass\<lparr>ssl_result := 3\<rparr>]) = 5
   \<and> sslWrite [ex_pass, ex_pass\<lparr>ssl_result := 3\<rparr>] 1 (Some ex_appData) 2 100 5
        SSL_ERROR_NONE 0 ex_proc
     = Some (5, SSL_ERROR_NONE, Some ex_appData,
             ex_proc\<lparr>errno := 0, pipe := 2,
                     calls := [Call_SSL_write 100 5, Call_write, Call_SSL_write 102 3,
                               Call_write]\<rparr>)"
  using sslWrite_reissues_remaining_suffix
     [where its = "[ex_pass,
          ex_pass\<lparr>ssl_result := - 1, get_error := SSL_ERROR_WANT_WRITE, bytes_moved := False\<rparr>,
          ex_pass\<lparr>ssl_result := - 1, get_error := SSL_ERROR_SYSCALL, engine_errno := EINTR,
                  bytes_moved := False\<rparr>,
          ex_pass\<lparr>ssl_result := 3\<rparr>]"
        and e = 1 and appData = ex_appData and shc = 2 and buf = 100 and len = 5
        and sslError = SSL_ERROR_NONE and t = 0 and p = ex_proc
        and ?sslError1.0 = SSL_ERROR_NONE and ?appData1.0 = ex_appData
        and ?p1.0 = "ex_proc\<lparr>errno := 0, pipe := 2,
                     calls := [Call_SSL_write 100 5, Call_write, Call_SSL_write 102 3,
                               Call_poll POLLOUT_POLLPRI (- 1), Call_SSL_write 102 3,
                               Call_SSL_write 102 3, Call_write]\<rparr>"
        and chunks = "[ex_pass, ex_pass\<lparr>ssl_result := 3\<rparr>]"]
  by (simp add: ex_defs run_defs taken_def sslError_of_def accepts_chunk_def
                reaches_switch_def handshake_unfinished_def wake_returns_def write_calls_def)

text \<open>
  The claim C4 fails: a write of five bytes in which the engine takes two bytes and
  another thread then interrupts the connection. \<open>sslWrite\<close> returns 5 after its only
  engine call, and \<open>NativeCrypto_SSL_write\<close> returns with nothing thrown: the write
  completes without a failure though two bytes, not five, were confirmed.
\<close>

theorem interrupted_write_returns_length_after_two_bytes:
  "ssl_result ex_pass = 2 \<and> sslError_of ex_pass = SSL_ERROR_NONE
   \<and> sslWrite [ex_pass, ex_pass\<lparr>interrupt_first := True\<rparr>] 1 (Some ex_appData) 2 100 5
        SSL_ERROR_NONE 0 ex_proc
     = Some (5, SSL_ERROR_NONE, Some (ex_appData\<lparr>aliveAndKicking := 0\<rparr>),
             ex_proc\<lparr>errno := 0, pipe := 3, pending := None,
                     calls := [Call_SSL_write 100 5, Call_write]\<rparr>)
   \<and> NativeCrypto_SSL_write [ex_pass, ex_pass\<lparr>interrupt_first := True\<rparr>] True 1
        (Some (Some ex_appData)) (Some 3) (Some 2) (Some 100) 0 5 0 ex_proc
     = Some (Some (Some (ex_appData\<lparr>aliveAndKicking := 0\<rparr>)),
             ex_proc\<lparr>errno := 0, pipe := 3, pending := None,
                     calls := [Call_SSL_write 100 5, Call_write]\<rparr>)"
  by (simp add: ex_defs run_defs sslError_of_def)

subsection \<open>How the read and write loops end\<close>

text \<open>
  C1, as the code has it. When the test of the loop finds \<open>aliveAndKicking\<close> cleared,
  \<open>sslRead\<close> returns -1, the value it returns at end of stream, and \<open>sslWrite\<close> returns
  \<open>count\<close>, the length it was called with; the error code of the caller is left as the
  last pass set it. \<open>NativeCrypto_SSL_read\<close> hands the -1 on without raising an exception.
  For a write of positive length the value \<open>sslWrite\<close> returns is none of the three failure
  codes, and \<open>NativeCrypto_SSL_write\<close> raises nothing; a length equal to one of the failure
  codes \<open>THROW_SSLEXCEPTION\<close> and \<open>THROW_SOCKETTIMEOUTEXCEPTION\<close>, which is negative and for
  which the loop is never entered, is returned as \<open>count\<close> too and is taken for the code by
  \<open>NativeCrypto_SSL_write\<close>.
\<close>

theorem cleared_flag_ends_loop_without_failure:
  "(aliveAndKicking appData = 0 \<or> interrupt_first it \<longrightarrow>
      sslRead_loop (it # rest) e shc buf len sslError t appData p =
        Some (- 1, sslError, if interrupt_first it then interrupted_by_other_thread appData p
                             else (appData, p))
      \<and> sslWrite_loop (it # rest) e shc buf len count sslError t appData p =
          Some (count, sslError, if interrupt_first it then interrupted_by_other_thread appData p
                                 else (appData, p)))
   \<and> (aliveAndKicking appData = 0 \<longrightarrow>
      sslRead_loop [] e shc buf len sslError t appData p = Some (- 1, sslError, appData, p)
      \<and> sslWrite_loop [] e shc buf len count sslError t appData p
          = Some (count, sslError, appData, p))
   \<and> (sslRead its e ssl shc (b + offset) len SSL_ERROR_NONE t p = Some (- 1, sslError1, ssl1, p1) \<longrightarrow>
      NativeCrypto_SSL_read its asprintf_ok e (Some ssl) (Some fd) (Some shc) (Some b) offset len t p
        = Some (- 1, Some ssl1, p1))
   \<and> (sslWrite its e ssl shc (b + offset) len SSL_ERROR_NONE t p = Some (len, sslError1, ssl1, p1) \<longrightarrow>
      (0 < len \<longrightarrow>
         NativeCrypto_SSL_write its asprintf_ok e (Some ssl) (Some fd) (Some shc) (Some b)
             offset len t p
           = Some (Some ssl1, p1))
      \<and> NativeCrypto_SSL_write its asprintf_ok e (Some ssl) (Some fd) (Some shc) (Some b)
            offset len t p
          = Some (Some ssl1,
                  if len = THROW_SSLEXCEPTION
                  then throwSSLExceptionWithSslErrors asprintf_ok sslError1 ''Write error'' p1
                  else if len = THROW_SOCKETTIMEOUTEXCEPTION
                  then throw (SocketTimeoutException ''Write timed out'') p1
                  else p1))"
proof (intro conjI impI)
  assume c: "aliveAndKicking appData = 0 \<or> interrupt_first it"
  then show "sslRead_loop (it # rest) e shc buf len sslError t appData p =
        Some (- 1, sslError, if interrupt_first it then interrupted_by_other_thread appData p
                             else (appData, p))"
    by (rule sslRead_loop_exit)
  from c show "sslWrite_loop (it # rest) e shc buf len count sslError t appData p =
          Some (count, sslError, if interrupt_first it then interrupted_by_other_thread appData p
                                 else (appData, p))"
    by (rule sslWrite_loop_exit)
next
  assume "aliveAndKicking appData = 0"
  then show "sslRead_loop [] e shc buf len sslError t appData p = Some (- 1, sslError, appData, p)"
    and "sslWrite_loop [] e shc buf len count sslError t appData p
          = Some (count, sslError, appData, p)"
    by simp_all
next
  assume "sslRead its e ssl shc (b + offset) len SSL_ERROR_NONE t p = Some (- 1, sslError1, ssl1, p1)"
  from NativeCrypto_SSL_read_of_sslRead [OF this, of asprintf_ok fd]
  show "NativeCrypto_SSL_read its asprintf_ok e (Some ssl) (Some fd) (Some shc) (Some b) offset len t p
        = Some (- 1, Some ssl1, p1)"
    by (simp add: THROW_SSLEXCEPTION_def THROW_SOCKETTIMEOUTEXCEPTION_def THROWN_EXCEPTION_def)
next
  assume w: "sslWrite its e ssl shc (b + offset) len SSL_ERROR_NONE t p
               = Some (len, sslError1, ssl1, p1)"
    and l: "0 < len"
  from NativeCrypto_SSL_write_of_sslWrite [OF w, of asprintf_ok fd] l
  show "NativeCrypto_SSL_write its asprintf_ok e (Some ssl) (Some fd) (Some shc) (Some b)
             offset len t p
           = Some (Some ssl1, p1)"
    by (simp add: THROW_SSLEXCEPTION_def THROW_SOCKETTIMEOUTEXCEPTION_def)
next
  assume w: "sslWrite its e ssl shc (b + offset) len SSL_ERROR_NONE t p
               = Some (len, sslError1, ssl1, p1)"
  from NativeCrypto_SSL_write_of_sslWrite [OF w, of asprintf_ok fd]
  show "NativeCrypto_SSL_write its asprintf_ok e (Some ssl) (Some fd) (Some shc) (Some b)
            offset len t p
          = Some (Some ssl1,
                  if len = THROW_SSLEXCEPTION
                  then throwSSLExceptionWithSslErrors asprintf_ok sslError1 ''Write error'' p1
                  else if len = THROW_SOCKETTIMEOUTEXCEPTION
                  then throw (SocketTimeoutException ''Write timed out'') p1
                  else p1)"
    by simp
qed

theorem cleared_flag_ends_loop_without_failure_witness:
  "interrupt_first (ex_pass\<lparr>interrupt_first := True\<rparr>)
   \<and> sslRead_loop [ex_pass\<lparr>interrupt_first := True\<rparr>] 1 2 0 5 SSL_ERROR_NONE 0 ex_appData ex_proc
       = Some (- 1, SSL_ERROR_NONE, ex_appData\<lparr>aliveAndKicking := 0\<rparr>, ex_proc\<lparr>pipe := 2\<rparr>)
   \<and> sslWrite_loop [ex_pass\<lparr>interrupt_first := True\<rparr>] 1 2 0 5 5 SSL_ERROR_NONE 0
         ex_appData ex_proc
       = Some (5, SSL_ERROR_NONE, ex_appData\<lparr>aliveAndKicking := 0\<rparr>, ex_proc\<lparr>pipe := 2\<rparr>)
   \<and> sslRead [] 1 (Some (ex_appData\<lparr>aliveAndKicking := 0\<rparr>)) 2 (0 + 0) 5 SSL_ERROR_NONE 0 ex_proc
       = Some (- 1, SSL_ERROR_NONE, Some (ex_appData\<lparr>aliveAndKicking := 0\<rparr>), ex_proc)
   \<and> NativeCrypto_SSL_read [] True 1 (Some (Some (ex_appData\<lparr>aliveAndKicking := 0\<rparr>))) (Some 3)
        (Some 2) (Some 0) 0 5 0 ex_proc
       = Some (- 1, Some (Some (ex_appData\<lparr>aliveAndKicking := 0\<rparr>)), ex_proc)
   \<and> (0::int) < 5
   \<and> sslWrite [] 1 (Some (ex_appData\<lparr>aliveAndKicking := 0\<rparr>)) 2 (0 + 0) 5 SSL_ERROR_NONE 0 ex_proc
       = Some (5, SSL_ERROR_NONE, Some (ex_appData\<lparr>aliveAndKicking := 0\<rparr>), ex_proc)
   \<and> NativeCrypto_SSL_write [] True 1 (Some (Some (ex_appData\<lparr>aliveAndKicking := 0\<rparr>))) (Some 3)
        (Some 2) (Some 0) 0 5 0 ex_proc
       = Some (Some (Some (ex_appData\<lparr>aliveAndKicking := 0\<rparr>)), ex_proc)"
  using cleared_flag_ends_loop_without_failure
          [where appData = ex_appData and it = "ex_pass\<lparr>interrupt_first := True\<rparr>"
             and rest = "[]" and e = 1 and shc = 2 and buf = 0 and len = 5 and t = 0
             and sslError = SSL_ERROR_NONE and ?sslError1.0 = SSL_ERROR_NONE
             and asprintf_ok = True
             and p = ex_proc and count = 5 and its = "[]"
             and ssl = "Some (ex_appData\<lparr>aliveAndKicking := 0\<rparr>)" and b = 0 and offset = 0
             and ?ssl1.0 = "Some (ex_appData\<lparr>aliveAndKicking := 0\<rparr>)" and ?p1.0 = ex_proc
             and fd = 3]
  by (simp add: ex_defs interrupted_by_other_thread_def sslRead_def sslWrite_def
                THROW_SSLEXCEPTION_def THROW_SOCKETTIMEOUTEXCEPTION_def)

text \<open>
  The claim C1 fails: a read and a write of five bytes that wait in \<open>poll\<close> when another
  thread interrupts the connection. The read returns -1 with no exception pending, which
  is what a read at end of stream returns; the write returns 5, the whole length, though
  the engine took no byte, and nothing is thrown.
\<close>

theorem interrupted_read_reports_end_of_stream_and_write_success:
  "NativeCrypto_SSL_read
     [ex_pass\<lparr>ssl_result := - 1, get_error := SSL_ERROR_WANT_READ, bytes_moved := False,
              polls := [ex_round\<lparr>interrupt_during := True, revents_POLLIN := True\<rparr>]\<rparr>]
     True 1 (Some (Some ex_appData)) (Some 3) (Some 2) (Some 0) 0 5 0 ex_proc
     = Some (- 1, Some (Some (ex_appData\<lparr>aliveAndKicking := 0\<rparr>)),
             ex_proc\<lparr>errno := 0, pipe := 1, pending := None,
                     calls := [Call_SSL_read 0 5, Call_poll POLLIN_POLLPRI (- 1), Call_read]\<rparr>)
   \<and> NativeCrypto_SSL_read [ex_pass\<lparr>ssl_result := 0, get_error := SSL_ERROR_ZERO_RETURN\<rparr>]
       True 1 (Some (Some ex_appData)) (Some 3) (Some 2) (Some 0) 0 5 0 ex_proc
     = Some (- 1, Some (Some ex_appData),
             ex_proc\<lparr>errno := 0, pipe := 1, pending := None,
                     calls := [Call_SSL_read 0 5, Call_write]\<rparr>)
   \<and> sslWrite
       [ex_pass\<lparr>ssl_result := - 1, get_error := SSL_ERROR_WANT_WRITE, bytes_moved := False,
                polls := [ex_round\<lparr>interrupt_during := True, revents_POLLIN := True\<rparr>]\<rparr>]
       1 (Some ex_appData) 2 0 5 SSL_ERROR_NONE 0 ex_proc
     = Some (5, SSL_ERROR_WANT_WRITE, Some (ex_appData\<lparr>aliveAndKicking := 0\<rparr>),
             ex_proc\<lparr>errno := 0, pipe := 1, pending := None,
                     calls := [Call_SSL_write 0 5, Call_poll POLLOUT_POLLPRI (- 1), Call_read]\<rparr>)
   \<and> NativeCrypto_SSL_write
       [ex_pass\<lparr>ssl_result := - 1, get_error := SSL_ERROR_WANT_WRITE, bytes_moved := False,
                polls := [ex_round\<lparr>interrupt_during := True, revents_POLLIN := True\<rparr>]\<rparr>]
       True 1 (Some (Some ex_appData)) (Some 3) (Some 2) (Some 0) 0 5 0 ex_proc
     = Some (Some (Some (ex_appData\<lparr>aliveAndKicking := 0\<rparr>)),
             ex_proc\<lparr>errno := 0, pipe := 1, pending := None,
                     calls := [Call_SSL_write 0 5, Call_poll POLLOUT_POLLPRI (- 1), Call_read]\<rparr>)"
  by (simp add: ex_defs run_defs)






text \<open>
  C10, as the code has it. A read of a length other than 0, or a write of a positive
  length, that finds the flag set at the first test of its loop while the handshake is not
  finished, no false start is in progress and no renegotiation is pending returns
  \<open>THROW_SSLEXCEPTION\<close> and leaves the error code of its caller as it was; the JNI entry
  point raises an \<open>SSLException\<close>. Only errno has changed: no engine call and no poll has
  been made.
\<close>

theorem unfinished_handshake_fails_at_once:
  "handshake_unfinished it \<and> \<not> interrupt_first it \<and> aliveAndKicking appData \<noteq> 0 \<longrightarrow>
     (len \<noteq> 0 \<longrightarrow>
        sslRead (it # rest) e (Some appData) shc (b + offset) len sslError t p
          = Some (THROW_SSLEXCEPTION, sslError, Some appData, p\<lparr>errno := 0\<rparr>)
        \<and> NativeCrypto_SSL_read (it # rest) asprintf_ok e (Some (Some appData)) (Some fd)
            (Some shc) (Some b) offset len t p
          = Some (- 1, Some (Some appData),
                  p\<lparr>errno := 0, pending := Some (SSLException ''Read error'')\<rparr>))
     \<and> (0 < len \<longrightarrow>
        sslWrite (it # rest) e (Some appData) shc (b + offset) len sslError t p
          = Some (THROW_SSLEXCEPTION, sslError, Some appData, p\<lparr>errno := 0\<rparr>)
        \<and> NativeCrypto_SSL_write (it # rest) asprintf_ok e (Some (Some appData)) (Some fd)
            (Some shc) (Some b) offset len t p
          = Some (Some (Some appData),
                  p\<lparr>errno := 0, pending := Some (SSLException ''Write error'')\<rparr>))"
proof (intro impI conjI)
  assume h: "handshake_unfinished it \<and> \<not> interrupt_first it \<and> aliveAndKicking appData \<noteq> 0"
    and l: "len \<noteq> 0"
  from h l show "sslRead (it # rest) e (Some appData) shc (b + offset) len sslError t p
          = Some (THROW_SSLEXCEPTION, sslError, Some appData, p\<lparr>errno := 0\<rparr>)"
    by (simp add: sslRead_def sslRead_body_unfinished)
  from h l have r: "sslRead (it # rest) e (Some appData) shc (b + offset) len SSL_ERROR_NONE t p
          = Some (THROW_SSLEXCEPTION, SSL_ERROR_NONE, Some appData, p\<lparr>errno := 0\<rparr>)"
    by (simp add: sslRead_def sslRead_body_unfinished)
  from NativeCrypto_SSL_read_of_sslRead [OF r, of asprintf_ok fd]
  show "NativeCrypto_SSL_read (it # rest) asprintf_ok e (Some (Some appData)) (Some fd)
            (Some shc) (Some b) offset len t p
          = Some (- 1, Some (Some appData),
                  p\<lparr>errno := 0, pending := Some (SSLException ''Read error'')\<rparr>)"
    by (simp add: throwSSLExceptionWithSslErrors_class)
next
  assume h: "handshake_unfinished it \<and> \<not> interrupt_first it \<and> aliveAndKicking appData \<noteq> 0"
    and l: "0 < len"
  from h l show "sslWrite (it # rest) e (Some appData) shc (b + offset) len sslError t p
          = Some (THROW_SSLEXCEPTION, sslError, Some appData, p\<lparr>errno := 0\<rparr>)"
    by (simp add: sslWrite_def sslWrite_body_unfinished)
  from h l have w: "sslWrite (it # rest) e (Some appData) shc (b + offset) len SSL_ERROR_NONE t p
          = Some (THROW_SSLEXCEPTION, SSL_ERROR_NONE, Some appData, p\<lparr>errno := 0\<rparr>)"
    by (simp add: sslWrite_def sslWrite_body_unfinished)
  from NativeCrypto_SSL_write_of_sslWrite [OF w, of asprintf_ok fd]
  show "NativeCrypto_SSL_write (it # rest) asprintf_ok e (Some (Some appData)) (Some fd)
            (Some shc) (Some b) offset len t p
          = Some (Some (Some appData),
                  p\<lparr>errno := 0, pending := Some (SSLException ''Write error'')\<rparr>)"
    by (simp add: throwSSLExceptionWithSslErrors_class)
qed

theorem unfinished_handshake_fails_at_once_witness:
  "handshake_unfinished (ex_pass\<lparr>init_finished := False\<rparr>)
   \<and> \<not> interrupt_first (ex_pass\<lparr>init_finished := False\<rparr>)
   \<and> aliveAndKicking ex_appData \<noteq> 0 \<and> (5::int) \<noteq> 0 \<and> (0::int) < 5
   \<and> sslRead [ex_pass\<lparr>init_finished := False\<rparr>] 1 (Some ex_appData) 2 (0 + 0) 5
        SSL_ERROR_NONE 0 ex_proc
       = Some (THROW_SSLEXCEPTION, SSL_ERROR_NONE, Some ex_appData, ex_proc\<lparr>errno := 0\<rparr>)
   \<and> NativeCrypto_SSL_read [ex_pass\<lparr>init_finished := False\<rparr>] True 1 (Some (Some ex_appData))
        (Some 3) (Some 2) (Some 0) 0 5 0 ex_proc
       = Some (- 1, Some (Some ex_appData),
               ex_proc\<lparr>errno := 0, pending := Some (SSLException ''Read error'')\<rparr>)
   \<and> sslWrite [ex_pass\<lparr>init_finished := False\<rparr>] 1 (Some ex_appData) 2 (0 + 0) 5
        SSL_ERROR_NONE 0 ex_proc
       = Some (THROW_SSLEXCEPTION, SSL_ERROR_NONE, Some ex_appData, ex_proc\<lparr>errno := 0\<rparr>)
   \<and> NativeCrypto_SSL_write [ex_pass\<lparr>init_finished := False\<rparr>] True 1 (Some (Some ex_appData))
        (Some 3) (Some 2) (Some 0) 0 5 0 ex_proc
       = Some (Some (Some ex_appData),
               ex_proc\<lparr>errno := 0, pending := Some (SSLException ''Write error'')\<rparr>)"
proof -
  have h: "handshake_unfinished (ex_pass\<lparr>init_finished := False\<rparr>)
           \<and> \<not> interrupt_first (ex_pass\<lparr>init_finished := False\<rparr>)
           \<and> aliveAndKicking ex_appData \<noteq> 0"
    by (simp add: ex_defs handshake_unfinished_def)
  from unfinished_handshake_fails_at_once
         [where it = "ex_pass\<lparr>init_finished := False\<rparr>" and appData = ex_appData and len = 5
            and rest = "[]" and e = 1 and shc = 2 and b = 0 and offset = 0 and t = 0
            and sslError = SSL_ERROR_NONE and asprintf_ok = True
            and p = ex_proc and fd = 3] h
  show ?thesis by simp
qed

text \<open>
  The claim C10 fails: with the handshake unfinished, a read of length 0 returns 0, and a
  read of five bytes on a connection whose flag is cleared returns -1; neither is a
  failure, and nothing is thrown.
\<close>

theorem unfinished_handshake_read_without_failure:
  "handshake_unfinished (ex_pass\<lparr>init_finished := False\<rparr>)
   \<and> NativeCrypto_SSL_read [ex_pass\<lparr>init_finished := False\<rparr>] True 1 (Some (Some ex_appData))
        (Some 3) (Some 2) (Some 0) 0 0 0 ex_proc
       = Some (0, Some (Some ex_appData), ex_proc)
   \<and> NativeCrypto_SSL_read [ex_pass\<lparr>init_finished := False\<rparr>] True 1
        (Some (Some (ex_appData\<lparr>aliveAndKicking := 0\<rparr>))) (Some 3) (Some 2) (Some 0) 0 5 0 ex_proc
       = Some (- 1, Some (Some (ex_appData\<lparr>aliveAndKicking := 0\<rparr>)), ex_proc)
   \<and> pending ex_proc = None"
  by (simp add: ex_defs handshake_unfinished_def NativeCrypto_SSL_read_def sslRead_def
                THROWN_EXCEPTION_def THROW_SSLEXCEPTION_def THROW_SOCKETTIMEOUTEXCEPTION_def)

end
